theory Spec2Isabelle
  imports Complex_Main "HOL-Library.Word" "HOL-Library.Multiset" "HOL-Library.Monad_Syntax"
begin

unbundle bit_operations_syntax

section \<open>Time\<close>

text \<open>
  A \<open>time.Time\<close> is modelled by the instant it denotes: the number of nanoseconds since
  Go's zero time (January 1, year 1, 00:00:00 UTC), so that \<open>IsZero\<close> is the test for 0.
  A \<open>time.Duration\<close> is an int64 count of nanoseconds; it is kept as an \<open>int\<close> inside
  the int64 range, and arithmetic that can leave the range is written out on \<open>64 word\<close>.
  Every call of \<open>time.Now()\<close> in the source becomes a parameter \<open>now\<close> of the
  operation that makes the call.
\<close>

type_synonym Time = int
type_synonym Duration = int

definition IsZero :: "Time \<Rightarrow> bool" where
  "IsZero t = (t = 0)"

definition Before :: "Time \<Rightarrow> Time \<Rightarrow> bool" where
  "Before t u = (t < u)"

definition After :: "Time \<Rightarrow> Time \<Rightarrow> bool" where
  "After t u = (t > u)"

definition Add :: "Time \<Rightarrow> Duration \<Rightarrow> Time" where
  "Add t d = t + d"

definition minDuration :: Duration where
  "minDuration = - (2 ^ 63)"

definition maxDuration :: Duration where
  "maxDuration = 2 ^ 63 - 1"

text \<open>\<open>t.Sub(u)\<close> saturates at the largest and smallest Duration.\<close>

definition Sub :: "Time \<Rightarrow> Time \<Rightarrow> Duration" where
  "Sub t u = (if t - u > maxDuration then maxDuration
              else if t - u < minDuration then minDuration else t - u)"

definition Since :: "Time \<Rightarrow> Time \<Rightarrow> Duration" where
  "Since now t = Sub now t"

definition Until :: "Time \<Rightarrow> Time \<Rightarrow> Duration" where
  "Until now t = Sub t now"

definition Millisecond :: Duration where
  "Millisecond = 1000000"

definition Second :: Duration where
  "Second = 1000000000"

definition Minute :: Duration where
  "Minute = 60 * Second"


section \<open>Cooldown manager\<close>

definition DefaultShortCooldown :: Duration where
  "DefaultShortCooldown = 1 * Minute"

definition MaxShortCooldown :: Duration where
  "MaxShortCooldown = 5 * Minute"

record CooldownManager =
  cooldowns :: "string \<rightharpoonup> Time"
  reasons :: "string \<rightharpoonup> string"

definition NewCooldownManager :: CooldownManager where
  "NewCooldownManager = \<lparr>cooldowns = Map.empty, reasons = Map.empty\<rparr>"

definition SetCooldown ::
  "Time \<Rightarrow> CooldownManager \<Rightarrow> string \<Rightarrow> Duration \<Rightarrow> string \<Rightarrow> CooldownManager" where
  "SetCooldown now cm tokenKey duration reason =
     cm\<lparr>cooldowns := (cooldowns cm)(tokenKey \<mapsto> Add now duration),
        reasons := (reasons cm)(tokenKey \<mapsto> reason)\<rparr>"

definition IsInCooldown :: "Time \<Rightarrow> CooldownManager \<Rightarrow> string \<Rightarrow> bool" where
  "IsInCooldown now cm tokenKey =
     (case cooldowns cm tokenKey of
        None \<Rightarrow> False
      | Some endTime \<Rightarrow> Before now endTime)"

definition GetRemainingCooldown :: "Time \<Rightarrow> CooldownManager \<Rightarrow> string \<Rightarrow> Duration" where
  "GetRemainingCooldown now cm tokenKey =
     (case cooldowns cm tokenKey of
        None \<Rightarrow> 0
      | Some endTime \<Rightarrow>
          (let remaining = Until now endTime in if remaining < 0 then 0 else remaining))"

text \<open>Reading a missing key of a Go map gives the zero value, here the empty string.\<close>

definition GetCooldownReason :: "CooldownManager \<Rightarrow> string \<Rightarrow> string" where
  "GetCooldownReason cm tokenKey = (case reasons cm tokenKey of None \<Rightarrow> [] | Some r \<Rightarrow> r)"

definition ClearCooldown :: "CooldownManager \<Rightarrow> string \<Rightarrow> CooldownManager" where
  "ClearCooldown cm tokenKey =
     cm\<lparr>cooldowns := (cooldowns cm)(tokenKey := None),
        reasons := (reasons cm)(tokenKey := None)\<rparr>"

text \<open>
  \<open>CleanupExpired\<close> ranges over the \<open>cooldowns\<close> map and deletes, inside the loop, the
  entry it is visiting. The order of a Go map range is not specified, so the loop is
  run over a list \<open>order\<close> of the keys, which the caller chooses; an entry deleted
  earlier is not visited again. One clock reading \<open>now\<close> is taken before the loop.
\<close>

fun cleanup_loop :: "Time \<Rightarrow> string list \<Rightarrow> CooldownManager \<Rightarrow> CooldownManager" where
  "cleanup_loop now [] cm = cm"
| "cleanup_loop now (tokenKey # rest) cm =
     (case cooldowns cm tokenKey of
        None \<Rightarrow> cleanup_loop now rest cm
      | Some endTime \<Rightarrow>
          if After now endTime
          then cleanup_loop now rest
                 (cm\<lparr>cooldowns := (cooldowns cm)(tokenKey := None),
                     reasons := (reasons cm)(tokenKey := None)\<rparr>)
          else cleanup_loop now rest cm)"

definition CleanupExpired :: "Time \<Rightarrow> string list \<Rightarrow> CooldownManager \<Rightarrow> CooldownManager" where
  "CleanupExpired now order cm = cleanup_loop now order cm"

text \<open>
  \<open>CalculateCooldownFor429\<close> computes \<open>DefaultShortCooldown * time.Duration(1 << retryCount)\<close>
  on int64: the shift is 0 from 64 bits on, the product wraps around, and a negative
  shift count panics (the result \<open>None\<close>). The comparison with the cap is signed.
\<close>

definition CalculateCooldownFor429 :: "int \<Rightarrow> Duration option" where
  "CalculateCooldownFor429 retryCount =
     (if retryCount < 0 then None
      else
        (let duration =
               sint ((word_of_int DefaultShortCooldown :: 64 word)
                       * push_bit (nat retryCount) (1 :: 64 word))
         in if duration > MaxShortCooldown then Some MaxShortCooldown else Some duration))"

text \<open>The states a cooldown manager can be in.\<close>

inductive cm_reachable :: "CooldownManager \<Rightarrow> bool" where
  cm_init: "cm_reachable NewCooldownManager"
| cm_set: "cm_reachable cm \<Longrightarrow> cm_reachable (SetCooldown now cm tokenKey duration reason)"
| cm_clear: "cm_reachable cm \<Longrightarrow> cm_reachable (ClearCooldown cm tokenKey)"
| cm_cleanup: "cm_reachable cm \<Longrightarrow> set order = dom (cooldowns cm)
                 \<Longrightarrow> cm_reachable (CleanupExpired now order cm)"

section \<open>Strings\<close>

text \<open>
  The functions of Go's \<open>strings\<close> package that the repository calls, on byte strings.
  \<open>ToLower\<close> maps the ASCII capitals to small letters and leaves every other byte as it is;
  the names and phrases it is applied to are compared with ASCII strings only.
\<close>

fun HasPrefix :: "string \<Rightarrow> string \<Rightarrow> bool" where
  "HasPrefix s [] = True"
| "HasPrefix [] (p # ps) = False"
| "HasPrefix (c # cs) (p # ps) = (c = p \<and> HasPrefix cs ps)"

definition HasSuffix :: "string \<Rightarrow> string \<Rightarrow> bool" where
  "HasSuffix s suffix = HasPrefix (rev s) (rev suffix)"

fun Contains :: "string \<Rightarrow> string \<Rightarrow> bool" where
  "Contains [] substr = (substr = [])"
| "Contains (c # cs) substr = (HasPrefix (c # cs) substr \<or> Contains cs substr)"

definition lower_char :: "char \<Rightarrow> char" where
  "lower_char c =
     (case map_of (zip ''ABCDEFGHIJKLMNOPQRSTUVWXYZ'' ''abcdefghijklmnopqrstuvwxyz'') c of
        Some l \<Rightarrow> l
      | None \<Rightarrow> c)"

definition ToLower :: "string \<Rightarrow> string" where
  "ToLower s = map lower_char s"


section \<open>Rate limiter\<close>

text \<open>
  Modelled from the spec: the rate limiter (the type \<open>RateLimiter\<close> with \<open>NewRateLimiter\<close>,
  \<open>IsTokenAvailable\<close>, \<open>MarkTokenFailed\<close>, \<open>MarkTokenSuccess\<close>, \<open>CheckAndMarkSuspended\<close>,
  \<open>ResetSuspension\<close>, \<open>ClearTokenState\<close> and \<open>GetTokenState\<close>) is not among the source files;
  only its tests are. The definitions of this section follow sections 3 and 4.1 of the spec,
  with the names the tests use. The per-key state holds the consecutive failure count, the
  cooldown end and the suspended flag.
\<close>

record TokenState =
  FailCount :: int
  CooldownEnd :: Time
  IsSuspended :: bool

text \<open>
  Modelled from the spec: the limiter keeps the states by key. Its configuration (intervals,
  daily cap, backoff, jitter) does not enter the operations below except through the
  backoff, which is a parameter of \<open>MarkTokenFailed\<close>.
\<close>

record RateLimiter =
  states :: "string \<rightharpoonup> TokenState"

text \<open>Modelled from the spec: a new limiter knows no key.\<close>

definition NewRateLimiter :: RateLimiter where
  "NewRateLimiter = \<lparr>states = Map.empty\<rparr>"

text \<open>Modelled from the spec: \<open>GetTokenState\<close> returns a copy of the state, or nil.\<close>

definition GetTokenState :: "RateLimiter \<Rightarrow> string \<Rightarrow> TokenState option" where
  "GetTokenState rl tokenKey = states rl tokenKey"

text \<open>
  Modelled from the spec: \<open>IsAvailable(key)\<close> is true unless the key's state is suspended or
  its cooldown end is in the future; unknown keys are available.
\<close>

definition IsTokenAvailable :: "Time \<Rightarrow> RateLimiter \<Rightarrow> string \<Rightarrow> bool" where
  "IsTokenAvailable now rl tokenKey =
     (case states rl tokenKey of
        None \<Rightarrow> True
      | Some st \<Rightarrow> \<not> IsSuspended st \<and> \<not> Before now (CooldownEnd st))"

text \<open>
  Modelled from the spec: \<open>MarkFailed(key)\<close> increments the failure count and sets the
  cooldown end to \<open>now + backoff(failCount)\<close>; the state is created on the first failure.
  The backoff is jittered at random, so the jittered duration is the parameter \<open>backoff\<close>,
  a function of the new failure count.
\<close>

definition MarkTokenFailed ::
  "Time \<Rightarrow> (int \<Rightarrow> Duration) \<Rightarrow> RateLimiter \<Rightarrow> string \<Rightarrow> RateLimiter" where
  "MarkTokenFailed now backoff rl tokenKey =
     (let st = (case states rl tokenKey of
                  None \<Rightarrow> \<lparr>FailCount = 0, CooldownEnd = 0, IsSuspended = False\<rparr>
                | Some st \<Rightarrow> st);
          n = FailCount st + 1
      in rl\<lparr>states := (states rl)(tokenKey \<mapsto> st\<lparr>FailCount := n, CooldownEnd := Add now (backoff n)\<rparr>)\<rparr>)"

text \<open>
  Modelled from the spec: \<open>MarkSuccess(key)\<close> resets the failure count to 0 and clears the
  cooldown end; a state is never created on success alone.
\<close>

definition MarkTokenSuccess :: "RateLimiter \<Rightarrow> string \<Rightarrow> RateLimiter" where
  "MarkTokenSuccess rl tokenKey =
     (case states rl tokenKey of
        None \<Rightarrow> rl
      | Some st \<Rightarrow> rl\<lparr>states := (states rl)(tokenKey \<mapsto> st\<lparr>FailCount := 0, CooldownEnd := 0\<rparr>)\<rparr>)"

text \<open>
  Modelled from the spec: \<open>CheckAndMarkSuspended(key, errorText)\<close> matches the error text
  against a fixed set of phrases; on a match it sets the suspended flag (creating the state
  when the key has none) and returns true; otherwise it returns false and changes nothing.
  The spec names the phrases by family only (ban, suspend, disable, deny, rate-limit,
  too-many-requests, quota-exceeded), so the matcher is the parameter \<open>matches\<close>.
\<close>

definition CheckAndMarkSuspended ::
  "(string \<Rightarrow> bool) \<Rightarrow> RateLimiter \<Rightarrow> string \<Rightarrow> string \<Rightarrow> bool \<times> RateLimiter" where
  "CheckAndMarkSuspended matches rl tokenKey errorText =
     (if matches errorText
      then
        (let st = (case states rl tokenKey of
                     None \<Rightarrow> \<lparr>FailCount = 0, CooldownEnd = 0, IsSuspended = False\<rparr>
                   | Some st \<Rightarrow> st)
         in (True, rl\<lparr>states := (states rl)(tokenKey \<mapsto> st\<lparr>IsSuspended := True\<rparr>)\<rparr>))
      else (False, rl))"

text \<open>
  Modelled from the spec: one matcher of the kind the spec describes, which looks for a
  phrase of each family in the error text without regard to case. It accepts the seven
  messages of \<open>TestCheckAndMarkSuspended_Suspended\<close> and rejects the four of
  \<open>TestCheckAndMarkSuspended_NotSuspended\<close>.
\<close>

definition suspendKeywords :: "string list" where
  "suspendKeywords =
     [''ban'', ''suspend'', ''disable'', ''denied'', ''rate limit'', ''too many requests'',
      ''quota exceeded'']"

text \<open>
  Modelled from the spec: the error text matches when its lower-case form contains one of
  the phrases.
\<close>

definition isSuspendError :: "string \<Rightarrow> bool" where
  "isSuspendError errorText = list_ex (Contains (ToLower errorText)) suspendKeywords"

text \<open>
  Modelled from the spec: \<open>ResetSuspension(key)\<close> is the explicit recovery from the
  suspended state (the tests expect the failure count 0 after it, and no effect on an
  unknown key).
\<close>

definition ResetSuspension :: "RateLimiter \<Rightarrow> string \<Rightarrow> RateLimiter" where
  "ResetSuspension rl tokenKey =
     (case states rl tokenKey of
        None \<Rightarrow> rl
      | Some st \<Rightarrow>
          rl\<lparr>states := (states rl)(tokenKey \<mapsto>
                st\<lparr>IsSuspended := False, FailCount := 0, CooldownEnd := 0\<rparr>)\<rparr>)"

text \<open>Modelled from the spec: \<open>Clear(key)\<close> removes the state of the key.\<close>

definition ClearTokenState :: "RateLimiter \<Rightarrow> string \<Rightarrow> RateLimiter" where
  "ClearTokenState rl tokenKey = rl\<lparr>states := (states rl)(tokenKey := None)\<rparr>"


section \<open>Health scorer\<close>

text \<open>
  The float64 fields and scores of the scorer are modelled by real numbers: the model is
  the arithmetic the source writes down, without rounding. The counters are Go ints; they
  count recorded requests and stay far below \<open>2^63\<close>, so they are unbounded integers here.
\<close>

record TokenMetrics =
  SuccessRate :: real
  AvgLatency :: real
  QuotaRemaining :: real
  LastUsed :: Time
  FailCount :: int
  TotalRequests :: int
  successCount :: int
  totalLatency :: real

record TokenScorer =
  metrics :: "string \<rightharpoonup> TokenMetrics"
  successRateWeight :: real
  quotaWeight :: real
  latencyWeight :: real
  lastUsedWeight :: real
  failPenaltyMultiplier :: real

definition NewTokenScorer :: TokenScorer where
  "NewTokenScorer =
     \<lparr>metrics = Map.empty,
      successRateWeight = 0.4,
      quotaWeight = 0.25,
      latencyWeight = 0.2,
      lastUsedWeight = 0.15,
      failPenaltyMultiplier = 0.1\<rparr>"

text \<open>\<open>Duration.Milliseconds\<close> is the int64 division by \<open>10^6\<close>, which truncates towards zero.\<close>

definition Milliseconds :: "Duration \<Rightarrow> int" where
  "Milliseconds d = sgn d * (\<bar>d\<bar> div 1000000)"

text \<open>\<open>Duration.Seconds\<close> is the duration as a floating-point number of seconds.\<close>

definition Seconds :: "Duration \<Rightarrow> real" where
  "Seconds d = real_of_int d / 1000000000"

text \<open>
  \<open>getOrCreateMetrics\<close> returns the record stored for the key, or stores and returns a new
  one. The source returns a pointer into the map; the callers below write the record they
  changed back under the key.
\<close>

definition getOrCreateMetrics :: "TokenScorer \<Rightarrow> string \<Rightarrow> TokenMetrics \<times> TokenScorer" where
  "getOrCreateMetrics s tokenKey =
     (case metrics s tokenKey of
        Some m \<Rightarrow> (m, s)
      | None \<Rightarrow>
          (let m = \<lparr>SuccessRate = 1, AvgLatency = 0, QuotaRemaining = 1, LastUsed = 0,
                    FailCount = 0, TotalRequests = 0, successCount = 0, totalLatency = 0\<rparr>
           in (m, s\<lparr>metrics := (metrics s)(tokenKey \<mapsto> m)\<rparr>)))"

definition RecordRequest ::
  "Time \<Rightarrow> TokenScorer \<Rightarrow> string \<Rightarrow> bool \<Rightarrow> Duration \<Rightarrow> TokenScorer" where
  "RecordRequest now s tokenKey success latency =
     (let (m, s1) = getOrCreateMetrics s tokenKey;
          m1 = m\<lparr>TotalRequests := TotalRequests m + 1,
                 LastUsed := now,
                 totalLatency := totalLatency m + real_of_int (Milliseconds latency)\<rparr>;
          m2 = (if success
                then m1\<lparr>successCount := successCount m1 + 1, FailCount := 0\<rparr>
                else m1\<lparr>FailCount := FailCount m1 + 1\<rparr>);
          m3 = (if TotalRequests m2 > 0
                then m2\<lparr>SuccessRate := real_of_int (successCount m2) / real_of_int (TotalRequests m2),
                        AvgLatency := totalLatency m2 / real_of_int (TotalRequests m2)\<rparr>
                else m2)
      in s1\<lparr>metrics := (metrics s1)(tokenKey \<mapsto> m3)\<rparr>)"

definition SetQuotaRemaining :: "TokenScorer \<Rightarrow> string \<Rightarrow> real \<Rightarrow> TokenScorer" where
  "SetQuotaRemaining s tokenKey quota =
     (let (m, s1) = getOrCreateMetrics s tokenKey
      in s1\<lparr>metrics := (metrics s1)(tokenKey \<mapsto> m\<lparr>QuotaRemaining := quota\<rparr>)\<rparr>)"

definition GetMetrics :: "TokenScorer \<Rightarrow> string \<Rightarrow> TokenMetrics option" where
  "GetMetrics s tokenKey = metrics s tokenKey"

definition CalculateScore :: "Time \<Rightarrow> TokenScorer \<Rightarrow> string \<Rightarrow> real" where
  "CalculateScore now s tokenKey =
     (case metrics s tokenKey of
        None \<Rightarrow> 1
      | Some m \<Rightarrow>
          (let successScore = SuccessRate m;
               quotaScore = QuotaRemaining m;
               latencyScore = (if TotalRequests m = 0 then 1 else exp (- AvgLatency m / 1000));
               timeSinceUse = Seconds (Since now (LastUsed m));
               lastUsedScore = (if IsZero (LastUsed m) then 1 else 1 - exp (- timeSinceUse / 60));
               score = successRateWeight s * successScore
                     + quotaWeight s * quotaScore
                     + latencyWeight s * latencyScore
                     + lastUsedWeight s * lastUsedScore
           in if FailCount m > 0
              then score * max 0 (1 - failPenaltyMultiplier s * real_of_int (FailCount m))
              else score))"

text \<open>
  \<open>SelectBestToken\<close> calls \<open>CalculateScore\<close> once for every candidate of a list of two or
  more, and each call reads the clock. The clock is the function \<open>clock\<close> from the number
  of the call to the time it reads; the second component of the result is the number of
  calls of \<open>CalculateScore\<close> that were made.
\<close>

fun select_loop ::
  "(nat \<Rightarrow> Time) \<Rightarrow> nat \<Rightarrow> TokenScorer \<Rightarrow> string list \<Rightarrow> string \<Rightarrow> real \<Rightarrow> string \<times> nat" where
  "select_loop clock n s [] bestToken bestScore = (bestToken, n)"
| "select_loop clock n s (token # rest) bestToken bestScore =
     (let score = CalculateScore (clock n) s token
      in if score > bestScore
         then select_loop clock (Suc n) s rest token score
         else select_loop clock (Suc n) s rest bestToken bestScore)"

definition SelectBestToken :: "(nat \<Rightarrow> Time) \<Rightarrow> TokenScorer \<Rightarrow> string list \<Rightarrow> string \<times> nat" where
  "SelectBestToken clock s tokens =
     (case tokens of
        [] \<Rightarrow> ([], 0)
      | [token] \<Rightarrow> (token, 0)
      | token # rest \<Rightarrow> select_loop clock 1 s rest token (CalculateScore (clock 0) s token))"

definition ResetMetrics :: "TokenScorer \<Rightarrow> string \<Rightarrow> TokenScorer" where
  "ResetMetrics s tokenKey = s\<lparr>metrics := (metrics s)(tokenKey := None)\<rparr>"

definition ResetAllMetrics :: "TokenScorer \<Rightarrow> TokenScorer" where
  "ResetAllMetrics s = s\<lparr>metrics := Map.empty\<rparr>"

text \<open>
  The states of a scorer: what the exported operations make of \<open>NewTokenScorer\<close>. The clock
  never reads Go's zero time.
\<close>

inductive ts_reachable :: "TokenScorer \<Rightarrow> bool" where
  ts_init: "ts_reachable NewTokenScorer"
| ts_record: "ts_reachable s \<Longrightarrow> \<not> IsZero now
                \<Longrightarrow> ts_reachable (RecordRequest now s tokenKey success latency)"
| ts_quota: "ts_reachable s \<Longrightarrow> ts_reachable (SetQuotaRemaining s tokenKey quota)"
| ts_reset: "ts_reachable s \<Longrightarrow> ts_reachable (ResetMetrics s tokenKey)"
| ts_reset_all: "ts_reachable s \<Longrightarrow> ts_reachable (ResetAllMetrics s)"

text \<open>
  What every reachable scorer satisfies: the weights are the default ones, the counters are
  not negative, and a record with a recorded request has a last-used time.
\<close>

definition metrics_ok :: "TokenMetrics \<Rightarrow> bool" where
  "metrics_ok m = (0 \<le> FailCount m \<and> 0 \<le> TotalRequests m \<and> (0 < TotalRequests m \<longrightarrow> \<not> IsZero (LastUsed m)))"

definition scorer_ok :: "TokenScorer \<Rightarrow> bool" where
  "scorer_ok s = (successRateWeight s = 0.4 \<and> quotaWeight s = 0.25 \<and> latencyWeight s = 0.2 \<and>
     lastUsedWeight s = 0.15 \<and> failPenaltyMultiplier s = 0.1 \<and>
     (\<forall>k m. metrics s k = Some m \<longrightarrow> metrics_ok m))"

text \<open>
  The states of a rate limiter and a scorer in which no operation that records a failure,
  a success, a suspension (with the cooldown it starts) or a metric has been performed
  on \<open>key\<close>: every such operation was called on another key. The resets and removals may
  have been called on any key.
\<close>

inductive untouched :: "string \<Rightarrow> RateLimiter \<times> TokenScorer \<Rightarrow> bool" for key :: string where
  un_init: "untouched key (NewRateLimiter, NewTokenScorer)"
| un_failed: "untouched key (rl, s) \<Longrightarrow> tokenKey \<noteq> key
                \<Longrightarrow> untouched key (MarkTokenFailed now backoff rl tokenKey, s)"
| un_success: "untouched key (rl, s) \<Longrightarrow> tokenKey \<noteq> key
                \<Longrightarrow> untouched key (MarkTokenSuccess rl tokenKey, s)"
| un_suspended: "untouched key (rl, s) \<Longrightarrow> tokenKey \<noteq> key
                \<Longrightarrow> untouched key (snd (CheckAndMarkSuspended matches rl tokenKey errorText), s)"
| un_reset_suspension: "untouched key (rl, s) \<Longrightarrow> untouched key (ResetSuspension rl tokenKey, s)"
| un_clear: "untouched key (rl, s) \<Longrightarrow> untouched key (ClearTokenState rl tokenKey, s)"
| un_record: "untouched key (rl, s) \<Longrightarrow> tokenKey \<noteq> key
                \<Longrightarrow> untouched key (rl, RecordRequest now s tokenKey success latency)"
| un_quota: "untouched key (rl, s) \<Longrightarrow> tokenKey \<noteq> key
                \<Longrightarrow> untouched key (rl, SetQuotaRemaining s tokenKey quota)"
| un_reset: "untouched key (rl, s) \<Longrightarrow> untouched key (rl, ResetMetrics s tokenKey)"
| un_reset_all: "untouched key (rl, s) \<Longrightarrow> untouched key (rl, ResetAllMetrics s)"


section \<open>Fingerprint manager\<close>

record Fingerprint =
  SDKVersion :: string
  OSType :: string
  OSVersion :: string
  NodeVersion :: string
  KiroVersion :: string
  KiroHash :: string
  AcceptLanguage :: string
  ScreenResolution :: string
  ColorDepth :: int
  HardwareConcurrency :: int
  TimezoneOffset :: int

text \<open>
  The random generator of the manager is the sequence \<open>rng\<close> of the raw values it will
  produce, with the number \<open>drawn\<close> of values consumed so far.
\<close>

record FingerprintManager =
  fingerprints :: "string \<rightharpoonup> Fingerprint"
  rng :: "nat \<Rightarrow> nat"
  drawn :: nat

definition sdkVersions :: "string list" where
  "sdkVersions =
     [''1.0.20'', ''1.0.21'', ''1.0.22'', ''1.0.23'',
      ''1.0.24'', ''1.0.25'', ''1.0.26'', ''1.0.27'']"

definition osTypes :: "string list" where
  "osTypes = [''darwin'', ''windows'', ''linux'']"

text \<open>\<open>osVersions\<close> is a Go map of slices: a key it does not hold gives the nil slice.\<close>

definition osVersions :: "string \<Rightarrow> string list" where
  "osVersions osType =
     (if osType = ''darwin''
      then [''14.0'', ''14.1'', ''14.2'', ''14.3'', ''14.4'', ''14.5'', ''15.0'', ''15.1'']
      else if osType = ''windows''
      then [''10.0.19041'', ''10.0.19042'', ''10.0.19043'', ''10.0.19044'', ''10.0.22621'',
            ''10.0.22631'']
      else if osType = ''linux''
      then [''5.15.0'', ''6.1.0'', ''6.2.0'', ''6.5.0'', ''6.6.0'', ''6.8.0'']
      else [])"

definition nodeVersions :: "string list" where
  "nodeVersions =
     [''18.17.0'', ''18.18.0'', ''18.19.0'', ''18.20.0'',
      ''20.9.0'', ''20.10.0'', ''20.11.0'', ''20.12.0'', ''20.13.0'',
      ''22.0.0'', ''22.1.0'', ''22.2.0'', ''22.3.0'']"

definition kiroVersions :: "string list" where
  "kiroVersions =
     [''0.3.0'', ''0.3.1'', ''0.4.0'', ''0.4.1'', ''0.5.0'', ''0.5.1'',
      ''0.6.0'', ''0.6.1'', ''0.7.0'', ''0.7.1'', ''0.8.0'', ''0.8.1'']"

definition acceptLanguages :: "string list" where
  "acceptLanguages =
     [''en-US,en;q=0.9'',
      ''en-GB,en;q=0.9'',
      ''zh-CN,zh;q=0.9,en;q=0.8'',
      ''zh-TW,zh;q=0.9,en;q=0.8'',
      ''ja-JP,ja;q=0.9,en;q=0.8'',
      ''ko-KR,ko;q=0.9,en;q=0.8'',
      ''de-DE,de;q=0.9,en;q=0.8'',
      ''fr-FR,fr;q=0.9,en;q=0.8'']"

definition screenResolutions :: "string list" where
  "screenResolutions =
     [''1920x1080'', ''2560x1440'', ''3840x2160'',
      ''1366x768'', ''1440x900'', ''1680x1050'',
      ''2560x1600'', ''3440x1440'']"

definition colorDepths :: "int list" where
  "colorDepths = [24, 32]"

definition hardwareConcurrencies :: "int list" where
  "hardwareConcurrencies = [4, 6, 8, 10, 12, 16, 20, 24, 32]"

definition timezoneOffsets :: "int list" where
  "timezoneOffsets = [-480, -420, -360, -300, -240, 0, 60, 120, 480, 540]"

text \<open>The generator is seeded from the clock; the seed decides the sequence \<open>draws\<close>.\<close>

definition NewFingerprintManager :: "(nat \<Rightarrow> nat) \<Rightarrow> FingerprintManager" where
  "NewFingerprintManager draws = \<lparr>fingerprints = Map.empty, rng = draws, drawn = 0\<rparr>"

text \<open>
  \<open>rng.Intn(n)\<close> panics for \<open>n \<le> 0\<close> (the result \<open>None\<close>) and otherwise returns a number
  below \<open>n\<close>, here the next raw value reduced modulo \<open>n\<close>; the generator moves on.
\<close>

definition Intn :: "FingerprintManager \<Rightarrow> nat \<Rightarrow> (nat \<times> FingerprintManager) option" where
  "Intn fm n =
     (if n = 0 then None
      else Some (rng fm (drawn fm) mod n, fm\<lparr>drawn := Suc (drawn fm)\<rparr>))"

definition randomChoice ::
  "FingerprintManager \<Rightarrow> string list \<Rightarrow> (string \<times> FingerprintManager) option" where
  "randomChoice fm choices =
     (case Intn fm (length choices) of
        None \<Rightarrow> None
      | Some (i, fm') \<Rightarrow> Some (choices ! i, fm'))"

definition randomIntChoice ::
  "FingerprintManager \<Rightarrow> int list \<Rightarrow> (int \<times> FingerprintManager) option" where
  "randomIntChoice fm choices =
     (case Intn fm (length choices) of
        None \<Rightarrow> None
      | Some (i, fm') \<Rightarrow> Some (choices ! i, fm'))"

text \<open>The decimal digits that \<open>%d\<close> prints.\<close>

fun digits :: "nat \<Rightarrow> string" where
  "digits n =
     (if n < 10 then [''0123456789'' ! n]
      else digits (n div 10) @ [''0123456789'' ! (n mod 10)])"

declare digits.simps [simp del]

definition itoa :: "int \<Rightarrow> string" where
  "itoa i = (if i < 0 then CHR ''-'' # digits (nat (- i)) else digits (nat i))"

text \<open>
  \<open>UnixNano\<close> counts from January 1, 1970, which is 62135596800 seconds after the zero time.
\<close>

definition UnixNano :: "Time \<Rightarrow> int" where
  "UnixNano t = t - 62135596800 * 1000000000"

text \<open>
  \<open>generateKiroHash\<close> is the hexadecimal SHA-256 digest of \<open>tokenKey:kiroVersion:osType:nanos\<close>.
  The digest is the library's; it is the parameter \<open>sha256hex\<close>.
\<close>

definition generateKiroHash ::
  "(string \<Rightarrow> string) \<Rightarrow> Time \<Rightarrow> string \<Rightarrow> string \<Rightarrow> string \<Rightarrow> string" where
  "generateKiroHash sha256hex now tokenKey kiroVersion osType =
     sha256hex (tokenKey @ '':'' @ kiroVersion @ '':'' @ osType @ '':'' @ itoa (UnixNano now))"

text \<open>
  \<open>generateFingerprint\<close> draws in the order of the source: OS type, OS version, Kiro version,
  then the fields of the struct literal from top to bottom. A panic of a draw ends the
  function (the \<open>do\<close> block of the option monad).
\<close>

definition generateFingerprint ::
  "(string \<Rightarrow> string) \<Rightarrow> Time \<Rightarrow> FingerprintManager \<Rightarrow> string
     \<Rightarrow> (Fingerprint \<times> FingerprintManager) option" where
  "generateFingerprint sha256hex now fm tokenKey =
     do {
       (osType, fm1) \<leftarrow> randomChoice fm osTypes;
       (osVersion, fm2) \<leftarrow> randomChoice fm1 (osVersions osType);
       (kiroVersion, fm3) \<leftarrow> randomChoice fm2 kiroVersions;
       (sdkVersion, fm4) \<leftarrow> randomChoice fm3 sdkVersions;
       (nodeVersion, fm5) \<leftarrow> randomChoice fm4 nodeVersions;
       (acceptLanguage, fm6) \<leftarrow> randomChoice fm5 acceptLanguages;
       (screenResolution, fm7) \<leftarrow> randomChoice fm6 screenResolutions;
       (colorDepth, fm8) \<leftarrow> randomIntChoice fm7 colorDepths;
       (hardwareConcurrency, fm9) \<leftarrow> randomIntChoice fm8 hardwareConcurrencies;
       (timezoneOffset, fm10) \<leftarrow> randomIntChoice fm9 timezoneOffsets;
       Some (\<lparr>SDKVersion = sdkVersion,
               OSType = osType,
               OSVersion = osVersion,
               NodeVersion = nodeVersion,
               KiroVersion = kiroVersion,
               KiroHash = generateKiroHash sha256hex now tokenKey kiroVersion osType,
               AcceptLanguage = acceptLanguage,
               ScreenResolution = screenResolution,
               ColorDepth = colorDepth,
               HardwareConcurrency = hardwareConcurrency,
               TimezoneOffset = timezoneOffset\<rparr>, fm10)
     }"

text \<open>
  \<open>GetFingerprint\<close> returns the stored fingerprint of the key, or generates one and stores
  it. The second look-up under the write lock is the first one again when no other
  goroutine runs in between.
\<close>

definition GetFingerprint ::
  "(string \<Rightarrow> string) \<Rightarrow> Time \<Rightarrow> FingerprintManager \<Rightarrow> string
     \<Rightarrow> (Fingerprint \<times> FingerprintManager) option" where
  "GetFingerprint sha256hex now fm tokenKey =
     (case fingerprints fm tokenKey of
        Some fp \<Rightarrow> Some (fp, fm)
      | None \<Rightarrow>
          (case generateFingerprint sha256hex now fm tokenKey of
             None \<Rightarrow> None
           | Some (fp, fm') \<Rightarrow>
               Some (fp, fm'\<lparr>fingerprints := (fingerprints fm')(tokenKey \<mapsto> fp)\<rparr>)))"

definition RemoveFingerprint :: "FingerprintManager \<Rightarrow> string \<Rightarrow> FingerprintManager" where
  "RemoveFingerprint fm tokenKey = fm\<lparr>fingerprints := (fingerprints fm)(tokenKey := None)\<rparr>"

text \<open>
  \<open>fm_later key fm fm'\<close>: the manager \<open>fm'\<close> comes from \<open>fm\<close> by calls of \<open>GetFingerprint\<close>
  on any keys and calls of \<open>RemoveFingerprint\<close> on keys other than \<open>key\<close>.
\<close>

inductive fm_later :: "string \<Rightarrow> FingerprintManager \<Rightarrow> FingerprintManager \<Rightarrow> bool"
  for key :: string and fm :: FingerprintManager where
  later_refl: "fm_later key fm fm"
| later_get: "fm_later key fm fm1 \<Longrightarrow> GetFingerprint sha256hex now fm1 tokenKey = Some (fp, fm2)
                \<Longrightarrow> fm_later key fm fm2"
| later_remove: "fm_later key fm fm1 \<Longrightarrow> tokenKey \<noteq> key
                \<Longrightarrow> fm_later key fm (RemoveFingerprint fm1 tokenKey)"


section \<open>Token repository\<close>

text \<open>
  Modelled from the spec: the declaration of the type \<open>Token\<close> is not among the source files.
  Its fields are the ones \<open>token_repository.go\<close> reads and writes; they carry the attributes
  section 3 of the spec lists for a credential. The zero value of a string is the empty
  string and the zero value of a time is the zero time.
\<close>

record Token =
  ID :: string
  AccessToken :: string
  RefreshToken :: string
  ExpiresAt :: Time
  LastVerified :: Time
  ClientID :: string
  ClientSecret :: string
  AuthMethod :: string
  Provider :: string
  StartURL :: string
  Region :: string

text \<open>
  A JSON value as \<open>json.Unmarshal\<close> decodes it into \<open>any\<close>. A file is modelled by what its
  bytes decode to: not valid JSON, the JSON \<open>null\<close>, a JSON value that is neither \<open>null\<close>
  nor an object, or an object, which is a map from field names to values.
  \<open>json.MarshalIndent\<close> of a map gives the bytes of that object.
\<close>

datatype json =
  JNull | JBool bool | JNumber rat | JString string | JArray "json list"
  | JObject "(string \<times> json) list"

datatype data = Invalid | Null | NonObject | Object "string \<rightharpoonup> json"

text \<open>
  The file system: the files that can be read, by path, and for a root directory the
  entries that \<open>filepath.WalkDir\<close> visits, in its order. An entry is what the callback of the
  walk receives: the path, the name and the kind of the directory entry, and whether the
  walk reports an error for it.
\<close>

record WalkEntry =
  wPath :: string
  Name :: string
  IsDir :: bool
  wErr :: bool

record FS =
  files :: "string \<rightharpoonup> data"
  tree :: "string \<Rightarrow> WalkEntry list"

text \<open>
  The library functions whose results the repository uses as they are: \<open>filepath.Join\<close> and
  \<open>filepath.Base\<close>, \<open>Time.Format\<close> and \<open>time.Parse\<close> with the layout RFC3339, and
  \<open>sort.Slice\<close> with the order of \<open>FindOldestUnverified\<close>, which is not a stable sort.
\<close>

record Lib =
  Join :: "string \<Rightarrow> string \<Rightarrow> string"
  Base :: "string \<Rightarrow> string"
  Format :: "Time \<Rightarrow> string"
  Parse :: "string \<Rightarrow> Time option"
  SortSlice :: "Token list \<Rightarrow> Token list"

datatype error =
  ErrRead | ErrUnmarshal | ErrTokenNil | ErrBaseDir | ErrMarshal | ErrWriteTemp | ErrRename
  | PanicNilMap

record FileTokenRepository =
  baseDir :: string

definition NewFileTokenRepository :: "string \<Rightarrow> FileTokenRepository" where
  "NewFileTokenRepository dir = \<lparr>baseDir = dir\<rparr>"

text \<open>
  \<open>json.Unmarshal(data, &m)\<close> for a variable \<open>m\<close> of type \<open>map[string]any\<close>; a nil map is
  \<open>None\<close>. The result is whether an error is returned, and the map afterwards: \<open>null\<close> sets
  it to nil, an object is added to the entries it has, and an error leaves it as it was.
\<close>

definition Unmarshal ::
  "data \<Rightarrow> (string \<rightharpoonup> json) option \<Rightarrow> bool \<times> (string \<rightharpoonup> json) option" where
  "Unmarshal d m =
     (case d of
        Invalid \<Rightarrow> (True, m)
      | Null \<Rightarrow> (False, None)
      | NonObject \<Rightarrow> (True, m)
      | Object obj \<Rightarrow> (False, Some ((case m of None \<Rightarrow> Map.empty | Some m0 \<Rightarrow> m0) ++ obj)))"


text \<open>Reading a key of a map that may be nil, and the type assertion \<open>.(string)\<close>.\<close>

definition index :: "(string \<rightharpoonup> json) option \<Rightarrow> string \<Rightarrow> json option" where
  "index m k = (case m of None \<Rightarrow> None | Some m0 \<Rightarrow> m0 k)"

definition as_string :: "json option \<Rightarrow> string \<times> bool" where
  "as_string v = (case v of Some (JString s) \<Rightarrow> (s, True) | _ \<Rightarrow> ([], False))"

text \<open>
  The statement \<open>if v, ok := metadata[key].(string); ok { ... }\<close> of \<open>readTokenFile\<close>, with
  the assignment in its body as the function \<open>assign\<close> of the string and the token.
\<close>

definition if_string ::
  "(string \<rightharpoonup> json) option \<Rightarrow> string \<Rightarrow> (string \<Rightarrow> Token \<Rightarrow> Token) \<Rightarrow> Token \<Rightarrow> Token" where
  "if_string metadata key assign token =
     (case as_string (index metadata key) of
        (v, True) \<Rightarrow> assign v token
      | (v, False) \<Rightarrow> token)"

definition readTokenFile :: "Lib \<Rightarrow> FS \<Rightarrow> string \<Rightarrow> error + Token option" where
  "readTokenFile lib fs path =
     (case files fs path of
        None \<Rightarrow> Inl ErrRead
      | Some d \<Rightarrow>
          (case Unmarshal d None of
             (True, _) \<Rightarrow> Inl ErrUnmarshal
           | (False, metadata) \<Rightarrow>
               (let tokenType = fst (as_string (index metadata ''type''))
                in if tokenType \<noteq> ''kiro'' then Inr None
                   else
                     (let authMethod = fst (as_string (index metadata ''auth_method''))
                      in if authMethod \<noteq> ''idc'' \<and> authMethod \<noteq> ''builder-id'' then Inr None
                         else
                           (let token = \<lparr>ID = Base lib path, AccessToken = [], RefreshToken = [],
                                          ExpiresAt = 0, LastVerified = 0, ClientID = [],
                                          ClientSecret = [], AuthMethod = authMethod,
                                          Provider = [], StartURL = [], Region = []\<rparr>;
                                token = if_string metadata ''access_token''
                                          (\<lambda>v t. t\<lparr>AccessToken := v\<rparr>) token;
                                token = if_string metadata ''refresh_token''
                                          (\<lambda>v t. t\<lparr>RefreshToken := v\<rparr>) token;
                                token = if_string metadata ''client_id''
                                          (\<lambda>v t. t\<lparr>ClientID := v\<rparr>) token;
                                token = if_string metadata ''client_secret''
                                          (\<lambda>v t. t\<lparr>ClientSecret := v\<rparr>) token;
                                token = if_string metadata ''region''
                                          (\<lambda>v t. t\<lparr>Region := v\<rparr>) token;
                                token = if_string metadata ''start_url''
                                          (\<lambda>v t. t\<lparr>StartURL := v\<rparr>) token;
                                token = if_string metadata ''provider''
                                          (\<lambda>v t. t\<lparr>Provider := v\<rparr>) token;
                                token = if_string metadata ''expires_at''
                                          (\<lambda>v t. case Parse lib v of
                                                    Some tm \<Rightarrow> t\<lparr>ExpiresAt := tm\<rparr>
                                                  | None \<Rightarrow> t) token;
                                token = if_string metadata ''last_refresh''
                                          (\<lambda>v t. case Parse lib v of
                                                    Some tm \<Rightarrow> t\<lparr>LastVerified := tm\<rparr>
                                                  | None \<Rightarrow> t) token
                            in Inr (Some token))))))"

text \<open>
  The callback of the walk in \<open>FindOldestUnverified\<close>: what it makes of the slice \<open>tokens\<close>
  at one entry. It reads the clock when it tests the expiry, so \<open>now\<close> is the reading
  taken at this entry.
\<close>

definition visit :: "Lib \<Rightarrow> Time \<Rightarrow> FS \<Rightarrow> WalkEntry \<Rightarrow> Token list \<Rightarrow> Token list" where
  "visit lib now fs d tokens =
     (if wErr d then tokens
      else if IsDir d then tokens
      else if \<not> HasSuffix (ToLower (Name d)) ''.json'' then tokens
      else if \<not> HasPrefix (Name d) ''kiro-'' then tokens
      else
        (case readTokenFile lib fs (wPath d) of
           Inl err \<Rightarrow> tokens
         | Inr None \<Rightarrow> tokens
         | Inr (Some token) \<Rightarrow>
             if RefreshToken token \<noteq> [] \<and>
                (IsZero (ExpiresAt token) \<or> Until now (ExpiresAt token) < 5 * Minute)
             then tokens @ [token]
             else tokens))"

text \<open>
  What the callback requires of an entry before it appends the token read from it.
\<close>

definition accepted :: "Lib \<Rightarrow> Time \<Rightarrow> FS \<Rightarrow> WalkEntry \<Rightarrow> Token \<Rightarrow> bool" where
  "accepted lib now fs d t =
     (\<not> wErr d \<and> \<not> IsDir d \<and>
      HasPrefix (Name d) ''kiro-'' \<and> HasSuffix (ToLower (Name d)) ''.json'' \<and>
      readTokenFile lib fs (wPath d) = Inr (Some t) \<and>
      RefreshToken t \<noteq> [] \<and>
      (IsZero (ExpiresAt t) \<or> Until now (ExpiresAt t) < 5 * Minute))"

text \<open>The walk: the callback at every entry, the \<open>i\<close>-th entry at the clock reading \<open>clock i\<close>.\<close>

fun walk_loop ::
  "Lib \<Rightarrow> (nat \<Rightarrow> Time) \<Rightarrow> FS \<Rightarrow> nat \<Rightarrow> WalkEntry list \<Rightarrow> Token list \<Rightarrow> Token list" where
  "walk_loop lib clock fs i [] tokens = tokens"
| "walk_loop lib clock fs i (d # rest) tokens =
     walk_loop lib clock fs (Suc i) rest (visit lib (clock i) fs d tokens)"

definition FindOldestUnverified ::
  "Lib \<Rightarrow> (nat \<Rightarrow> Time) \<Rightarrow> FS \<Rightarrow> FileTokenRepository \<Rightarrow> int \<Rightarrow> Token list" where
  "FindOldestUnverified lib clock fs r limit =
     (if baseDir r = [] then []
      else
        (let tokens = walk_loop lib clock fs 0 (tree fs (baseDir r)) [];
             tokens = SortSlice lib tokens
         in if limit > 0 \<and> int (length tokens) > limit then take (nat limit) tokens
            else tokens))"

text \<open>
  What \<open>sort.Slice\<close> guarantees for the order \<open>tokens[i].LastVerified.Before(tokens[j].LastVerified)\<close>:
  the result holds the same tokens, and no token comes before one that is less.
\<close>

definition sorts_by_LastVerified :: "(Token list \<Rightarrow> Token list) \<Rightarrow> bool" where
  "sorts_by_LastVerified srt =
     (\<forall>xs. mset (srt xs) = mset xs \<and>
           sorted_wrt (\<lambda>a b. \<not> Before (LastVerified b) (LastVerified a)) (srt xs))"






section \<open>Properties of the cooldown manager\<close>

lemma cleanup_loop_cooldowns:
  "cooldowns (cleanup_loop now ks cm) k =
     (if k \<in> set ks \<and> (\<exists>e. cooldowns cm k = Some e \<and> e < now) then None else cooldowns cm k)"
proof (induction ks arbitrary: cm)
  case Nil
  show ?case by simp
next
  case (Cons a ks)
  show ?case
  proof (cases "cooldowns cm a")
    case None
    then show ?thesis using Cons.IH [of cm] by auto
  next
    case (Some e)
    show ?thesis
    proof (cases "After now e")
      case True
      then show ?thesis using Some Cons.IH by (auto simp: After_def)
    next
      case False
      then show ?thesis using Some Cons.IH [of cm] by (auto simp: After_def)
    qed
  qed
qed

lemma cleanup_loop_reasons:
  "reasons (cleanup_loop now ks cm) k =
     (if k \<in> set ks \<and> (\<exists>e. cooldowns cm k = Some e \<and> e < now) then None else reasons cm k)"
proof (induction ks arbitrary: cm)
  case Nil
  show ?case by simp
next
  case (Cons a ks)
  show ?case
  proof (cases "cooldowns cm a")
    case None
    then show ?thesis using Cons.IH [of cm] by auto
  next
    case (Some e)
    show ?thesis
    proof (cases "After now e")
      case True
      then show ?thesis using Some Cons.IH by (auto simp: After_def)
    next
      case False
      then show ?thesis using Some Cons.IH [of cm] by (auto simp: After_def)
    qed
  qed
qed

lemma dom_cleanup_cooldowns:
  "dom (cooldowns (cleanup_loop now ks cm)) =
     dom (cooldowns cm) - {k \<in> set ks. \<exists>e. cooldowns cm k = Some e \<and> e < now}"
  by (auto simp: cleanup_loop_cooldowns domIff split: if_splits)

lemma dom_cleanup_reasons:
  "dom (reasons (cleanup_loop now ks cm)) =
     dom (reasons cm) - {k \<in> set ks. \<exists>e. cooldowns cm k = Some e \<and> e < now}"
  by (auto simp: cleanup_loop_reasons domIff split: if_splits)

lemma SetCooldown_same_keys: "dom (cooldowns cm) = dom (reasons cm) \<Longrightarrow> dom (cooldowns (SetCooldown now cm tokenKey duration reason)) = dom (reasons (SetCooldown now cm tokenKey duration reason))"
  by (simp add: SetCooldown_def)

lemma ClearCooldown_same_keys: "dom (cooldowns cm) = dom (reasons cm) \<Longrightarrow> dom (cooldowns (ClearCooldown cm tokenKey)) = dom (reasons (ClearCooldown cm tokenKey))"
  by (simp add: ClearCooldown_def)

lemma CleanupExpired_same_keys: "dom (cooldowns cm) = dom (reasons cm) \<Longrightarrow> dom (cooldowns (CleanupExpired now order cm)) = dom (reasons (CleanupExpired now order cm))"
  by (simp add: CleanupExpired_def dom_cleanup_cooldowns dom_cleanup_reasons)

text \<open>
  C8. A sweep run over the keys of the cooldowns map removes the end time and the reason of
  exactly the keys whose end time lies strictly before the clock reading of the sweep
  (the source's test \<open>now.After(endTime)\<close>); every other key, in particular every key whose
  end time is still in the future, keeps its end time and its reason string unchanged.
\<close>

theorem CleanupExpired_exact:
  assumes "set order = dom (cooldowns cm)"
  shows "((\<exists>e. cooldowns cm k = Some e \<and> e < now) \<longrightarrow>
            cooldowns (CleanupExpired now order cm) k = None \<and>
            reasons (CleanupExpired now order cm) k = None) \<and>
         (\<not> (\<exists>e. cooldowns cm k = Some e \<and> e < now) \<longrightarrow>
            cooldowns (CleanupExpired now order cm) k = cooldowns cm k \<and>
            reasons (CleanupExpired now order cm) k = reasons cm k)"
proof (cases "\<exists>e. cooldowns cm k = Some e \<and> e < now")
  case True
  then have "k \<in> dom (cooldowns cm)" by (auto simp: domIff)
  then have "k \<in> set order" by (simp only: assms)
  with True show ?thesis
    by (simp only: CleanupExpired_def cleanup_loop_cooldowns cleanup_loop_reasons) simp
next
  case False
  then show ?thesis
    by (simp only: CleanupExpired_def cleanup_loop_cooldowns cleanup_loop_reasons) simp
qed

theorem CleanupExpired_exact_witness:
  "set [''b'', ''a''] = dom (cooldowns (SetCooldown 0 (SetCooldown 0 NewCooldownManager ''a'' 1 ''r'') ''b'' 1000 ''r'')) \<and>
   cooldowns (CleanupExpired 10 [''b'', ''a'']
     (SetCooldown 0 (SetCooldown 0 NewCooldownManager ''a'' 1 ''r'') ''b'' 1000 ''r'')) ''a'' = None \<and>
   reasons (CleanupExpired 10 [''b'', ''a'']
     (SetCooldown 0 (SetCooldown 0 NewCooldownManager ''a'' 1 ''r'') ''b'' 1000 ''r'')) ''a'' = None \<and>
   cooldowns (CleanupExpired 10 [''b'', ''a'']
     (SetCooldown 0 (SetCooldown 0 NewCooldownManager ''a'' 1 ''r'') ''b'' 1000 ''r'')) ''b'' = Some 1000 \<and>
   reasons (CleanupExpired 10 [''b'', ''a'']
     (SetCooldown 0 (SetCooldown 0 NewCooldownManager ''a'' 1 ''r'') ''b'' 1000 ''r'')) ''b'' = Some ''r''"
proof -
  let ?cm = "SetCooldown 0 (SetCooldown 0 NewCooldownManager ''a'' 1 ''r'') ''b'' 1000 ''r''"
  have d: "set [''b'', ''a''] = dom (cooldowns ?cm)"
    by (auto simp: SetCooldown_def NewCooldownManager_def Add_def)
  have ca: "cooldowns ?cm ''a'' = Some 1" and cb: "cooldowns ?cm ''b'' = Some 1000"
    and rb: "reasons ?cm ''b'' = Some ''r''"
    by (simp_all add: SetCooldown_def NewCooldownManager_def Add_def)
  have a: "cooldowns (CleanupExpired 10 [''b'', ''a''] ?cm) ''a'' = None \<and>
           reasons (CleanupExpired 10 [''b'', ''a''] ?cm) ''a'' = None"
    using CleanupExpired_exact [OF d, of "''a''" 10] by (simp only: ca) simp
  have b: "cooldowns (CleanupExpired 10 [''b'', ''a''] ?cm) ''b'' = Some 1000 \<and>
           reasons (CleanupExpired 10 [''b'', ''a''] ?cm) ''b'' = Some ''r''"
    using CleanupExpired_exact [OF d, of "''b''" 10] by (simp only: cb rb) simp
  from d a b show ?thesis by blast
qed

text \<open>
  C10. In every state reached from \<open>NewCooldownManager\<close> by \<open>SetCooldown\<close>, \<open>ClearCooldown\<close>
  and \<open>CleanupExpired\<close>, the cooldowns map and the reasons map have the same keys.
\<close>

theorem cm_reachable_same_keys:
  "cm_reachable cm \<Longrightarrow> dom (cooldowns cm) = dom (reasons cm)"
proof (induction rule: cm_reachable.induct)
  case cm_init
  show ?case by (simp add: NewCooldownManager_def)
next
  case (cm_set cm now tokenKey duration reason)
  from cm_set.IH show ?case by (rule SetCooldown_same_keys)
next
  case (cm_clear cm tokenKey)
  from cm_clear.IH show ?case by (rule ClearCooldown_same_keys)
next
  case (cm_cleanup cm order now)
  from cm_cleanup.IH show ?case by (rule CleanupExpired_same_keys)
qed

theorem cm_reachable_same_keys_witness:
  "cm_reachable (ClearCooldown (SetCooldown 0 (SetCooldown 5 NewCooldownManager ''a'' 7 ''x'') ''b'' 9 ''y'') ''a'') \<and>
   dom (cooldowns (ClearCooldown (SetCooldown 0 (SetCooldown 5 NewCooldownManager ''a'' 7 ''x'') ''b'' 9 ''y'') ''a''))
     = dom (reasons (ClearCooldown (SetCooldown 0 (SetCooldown 5 NewCooldownManager ''a'' 7 ''x'') ''b'' 9 ''y'') ''a''))"
proof -
  have r: "cm_reachable (ClearCooldown (SetCooldown 0 (SetCooldown 5 NewCooldownManager ''a'' 7 ''x'') ''b'' 9 ''y'') ''a'')"
    by (intro cm_reachable.intros)
  from r cm_reachable_same_keys [OF r] show ?thesis by (rule conjI)
qed

lemma sint_of_int_64:
  "- (2 ^ 63) \<le> k \<Longrightarrow> k < 2 ^ 63 \<Longrightarrow> sint (word_of_int k :: 64 word) = k"
  by (simp add: sint_sbintrunc' signed_take_bit_int_eq_self)

lemma CalculateCooldownFor429_in_range:
  assumes "0 \<le> retryCount" and "retryCount \<le> 27"
  shows "CalculateCooldownFor429 retryCount =
           Some (min (DefaultShortCooldown * 2 ^ nat retryCount) MaxShortCooldown)"
proof -
  let ?n = "nat retryCount"
  let ?k = "60000000000 * (2::int) ^ ?n"
  have n: "?n \<le> 27" using assms by simp
  have "(2::int) ^ ?n \<le> 2 ^ 27" using n by (intro power_increasing) simp_all
  then have le: "?k < 2 ^ 63" by simp
  have ge: "- (2 ^ 63) \<le> ?k" by (rule order_trans [of _ 0]) simp_all
  have w: "(word_of_int 60000000000 :: 64 word) * push_bit ?n 1 = word_of_int ?k"
    by (simp add: push_bit_eq_mult)
  have "sint ((word_of_int 60000000000 :: 64 word) * push_bit ?n 1) = ?k"
    by (simp only: w sint_of_int_64 [OF ge le])
  then show ?thesis using assms
    by (simp add: CalculateCooldownFor429_def DefaultShortCooldown_def MaxShortCooldown_def
          Minute_def Second_def min_def)
qed

text \<open>
  C5. At retry count 28 the int64 product \<open>DefaultShortCooldown * 2^28\<close> has wrapped
  around to a negative number, which is below the cap and is returned as it is. Up to
  retry count 27 the product is exact and the result is the capped one (the lemma above).
\<close>

theorem CalculateCooldownFor429_overflow:
  "CalculateCooldownFor429 28 = Some (- 2340616713709551616)"
  by (simp add: CalculateCooldownFor429_def DefaultShortCooldown_def MaxShortCooldown_def
        Minute_def Second_def)


section \<open>Properties of the rate limiter\<close>

lemma isSuspendError_test_messages:
  "isSuspendError ''Account has been suspended''"
  "isSuspendError ''You are banned from this service''"
  "isSuspendError ''Account disabled''"
  "isSuspendError ''Access denied permanently''"
  "isSuspendError ''Rate limit exceeded''"
  "isSuspendError ''Too many requests''"
  "isSuspendError ''Quota exceeded for today''"
  "\<not> isSuspendError ''connection timeout''"
  "\<not> isSuspendError ''internal server error''"
  "\<not> isSuspendError ''bad request''"
  "\<not> isSuspendError ''invalid token format''"
  by (simp_all add: isSuspendError_def suspendKeywords_def ToLower_def lower_char_def)

text \<open>
  C6. For every matcher of error texts, key and error text: when the text matches,
  \<open>CheckAndMarkSuspended\<close> returns true, the key's state has the suspended flag set and the
  key is not available afterwards, at any time; when the text does not match, it returns
  false and the limiter is unchanged.
\<close>

theorem CheckAndMarkSuspended_iff:
  "(matches errorText \<longrightarrow>
      fst (CheckAndMarkSuspended matches rl key errorText) = True \<and>
      (\<exists>st. states (snd (CheckAndMarkSuspended matches rl key errorText)) key = Some st
            \<and> IsSuspended st) \<and>
      \<not> IsTokenAvailable now (snd (CheckAndMarkSuspended matches rl key errorText)) key) \<and>
   (\<not> matches errorText \<longrightarrow>
      fst (CheckAndMarkSuspended matches rl key errorText) = False \<and>
      snd (CheckAndMarkSuspended matches rl key errorText) = rl)"
  by (simp add: CheckAndMarkSuspended_def IsTokenAvailable_def Let_def)

theorem CheckAndMarkSuspended_iff_witness:
  "isSuspendError ''Account has been suspended'' \<and>
   fst (CheckAndMarkSuspended isSuspendError NewRateLimiter ''token1'' ''Account has been suspended'') \<and>
   \<not> IsTokenAvailable 0
       (snd (CheckAndMarkSuspended isSuspendError NewRateLimiter ''token1'' ''Account has been suspended''))
       ''token1'' \<and>
   \<not> isSuspendError ''connection timeout'' \<and>
   \<not> fst (CheckAndMarkSuspended isSuspendError NewRateLimiter ''token1'' ''connection timeout'') \<and>
   snd (CheckAndMarkSuspended isSuspendError NewRateLimiter ''token1'' ''connection timeout'')
     = NewRateLimiter"
  using CheckAndMarkSuspended_iff [of isSuspendError "''Account has been suspended''" NewRateLimiter "''token1''" 0]
    CheckAndMarkSuspended_iff [of isSuspendError "''connection timeout''" NewRateLimiter "''token1''" 0]
    isSuspendError_test_messages(1) isSuspendError_test_messages(8)
  by blast


section \<open>Properties of the health scorer\<close>

lemma scorer_ok_init: "scorer_ok NewTokenScorer"
  by (simp add: scorer_ok_def NewTokenScorer_def)

lemma scorer_ok_record:
  "scorer_ok s \<Longrightarrow> \<not> IsZero now \<Longrightarrow> scorer_ok (RecordRequest now s tokenKey success latency)"
  by (cases "metrics s tokenKey")
     (auto simp: scorer_ok_def RecordRequest_def getOrCreateMetrics_def metrics_ok_def Let_def)

lemma scorer_ok_quota: "scorer_ok s \<Longrightarrow> scorer_ok (SetQuotaRemaining s tokenKey quota)"
  by (cases "metrics s tokenKey")
     (auto simp: scorer_ok_def SetQuotaRemaining_def getOrCreateMetrics_def metrics_ok_def Let_def IsZero_def)

lemma scorer_ok_reset: "scorer_ok s \<Longrightarrow> scorer_ok (ResetMetrics s tokenKey)"
  by (auto simp: scorer_ok_def ResetMetrics_def)

lemma scorer_ok_reset_all: "scorer_ok s \<Longrightarrow> scorer_ok (ResetAllMetrics s)"
  by (auto simp: scorer_ok_def ResetAllMetrics_def)

lemma ts_reachable_ok: "ts_reachable s \<Longrightarrow> scorer_ok s"
  by (induction rule: ts_reachable.induct)
     (simp_all add: scorer_ok_init scorer_ok_record scorer_ok_quota scorer_ok_reset scorer_ok_reset_all)

lemma CalculateScore_known:
  assumes "metrics s key = Some m" and "TotalRequests m \<noteq> 0" and "\<not> IsZero (LastUsed m)"
    and "0 \<le> FailCount m"
  shows "CalculateScore now s key =
           (successRateWeight s * SuccessRate m + quotaWeight s * QuotaRemaining m
              + latencyWeight s * exp (- AvgLatency m / 1000)
              + lastUsedWeight s * (1 - exp (- Seconds (Since now (LastUsed m)) / 60)))
           * max 0 (1 - failPenaltyMultiplier s * real_of_int (FailCount m))"
proof (cases "FailCount m > 0")
  case True
  then show ?thesis using assms(1-3) by (simp add: CalculateScore_def Let_def)
next
  case False
  then have "FailCount m = 0" using assms(4) by simp
  then show ?thesis using assms(1-3) by (simp add: CalculateScore_def Let_def)
qed

text \<open>
  C3. In every reachable scorer, a key whose record has at least one recorded request has
  the score \<open>0.40 * successRate + 0.25 * quotaRemaining + 0.20 * exp (- avgLatency / 1000)
  + 0.15 * (1 - exp (- secondsSinceLastUse / 60))\<close> times the penalty
  \<open>max 0 (1 - 0.1 * consecutiveFailures)\<close>.
\<close>

theorem CalculateScore_formula:
  assumes "ts_reachable s" and "metrics s key = Some m" and "1 \<le> TotalRequests m"
  shows "CalculateScore now s key =
           (0.40 * SuccessRate m + 0.25 * QuotaRemaining m
              + 0.20 * exp (- AvgLatency m / 1000)
              + 0.15 * (1 - exp (- Seconds (Since now (LastUsed m)) / 60)))
           * max 0 (1 - 0.1 * real_of_int (FailCount m))"
proof -
  have ok: "scorer_ok s" using assms(1) by (rule ts_reachable_ok)
  then have m: "metrics_ok m" using assms(2) by (auto simp: scorer_ok_def)
  have t: "TotalRequests m \<noteq> 0" and z: "\<not> IsZero (LastUsed m)" and f: "0 \<le> FailCount m"
    using m assms(3) by (auto simp: metrics_ok_def)
  have w: "successRateWeight s = 0.4" "quotaWeight s = 0.25" "latencyWeight s = 0.2"
    "lastUsedWeight s = 0.15" "failPenaltyMultiplier s = 0.1"
    using ok by (simp_all add: scorer_ok_def)
  show ?thesis
    by (simp only: CalculateScore_known [OF assms(2) t z f] w) simp
qed

theorem CalculateScore_formula_witness:
  "ts_reachable (RecordRequest 5000000000 NewTokenScorer ''a'' False 100000000) \<and>
   metrics (RecordRequest 5000000000 NewTokenScorer ''a'' False 100000000) ''a'' =
     Some \<lparr>SuccessRate = 0, AvgLatency = 100, QuotaRemaining = 1, LastUsed = 5000000000,
           FailCount = 1, TotalRequests = 1, successCount = 0, totalLatency = 100\<rparr> \<and>
   CalculateScore 65000000000 (RecordRequest 5000000000 NewTokenScorer ''a'' False 100000000) ''a'' =
     (0.40 * 0 + 0.25 * 1 + 0.20 * exp (- 100 / 1000) + 0.15 * (1 - exp (- 60 / 60)))
       * max 0 (1 - 0.1 * 1)"
proof -
  let ?s = "RecordRequest 5000000000 NewTokenScorer ''a'' False 100000000"
  let ?m = "\<lparr>SuccessRate = 0, AvgLatency = 100, QuotaRemaining = 1, LastUsed = 5000000000,
           FailCount = 1, TotalRequests = 1, successCount = 0, totalLatency = 100\<rparr>"
  have r: "ts_reachable ?s"
    by (rule ts_record [OF ts_init]) (simp add: IsZero_def)
  have g: "metrics ?s ''a'' = Some ?m"
    by (simp add: RecordRequest_def getOrCreateMetrics_def NewTokenScorer_def Milliseconds_def Let_def)
  have t: "1 \<le> TotalRequests ?m" by simp
  have "CalculateScore 65000000000 ?s ''a'' =
     (0.40 * 0 + 0.25 * 1 + 0.20 * exp (- 100 / 1000) + 0.15 * (1 - exp (- 60 / 60)))
       * max 0 (1 - 0.1 * 1)"
    using CalculateScore_formula [OF r g t, of 65000000000]
    by (simp add: Seconds_def Since_def Sub_def maxDuration_def minDuration_def)
  with r g show ?thesis by blast
qed

lemma select_loop_calls:
  "snd (select_loop clock n s rest bestToken bestScore) = n + length rest"
  by (induction rest arbitrary: n bestToken bestScore) (simp_all add: Let_def)

lemma select_loop_first_max:
  assumes "drop n tokens = rest" and "i < n" and "n \<le> length tokens"
    and "bestToken = tokens ! i"
    and "bestScore = CalculateScore (clock i) s (tokens ! i)"
    and "\<forall>j<n. CalculateScore (clock j) s (tokens ! j) \<le> CalculateScore (clock i) s (tokens ! i)"
    and "\<forall>j<i. CalculateScore (clock j) s (tokens ! j) < CalculateScore (clock i) s (tokens ! i)"
  shows "\<exists>b<length tokens.
           fst (select_loop clock n s rest bestToken bestScore) = tokens ! b \<and>
           (\<forall>j<length tokens. CalculateScore (clock j) s (tokens ! j)
                                \<le> CalculateScore (clock b) s (tokens ! b)) \<and>
           (\<forall>j<b. CalculateScore (clock j) s (tokens ! j)
                     < CalculateScore (clock b) s (tokens ! b))"
  using assms
proof (induction rest arbitrary: n i bestToken bestScore)
  case Nil
  then have "n = length tokens" by simp
  with Nil show ?case by auto
next
  case (Cons token rest)
  let ?sc = "\<lambda>j. CalculateScore (clock j) s (tokens ! j)"
  from Cons.prems(1) have n: "n < length tokens"
    by (metis drop_all list.distinct(1) not_le)
  from Cons.prems(1) n have tok: "token = tokens ! n" and dr: "drop (Suc n) tokens = rest"
    by (simp_all add: Cons_nth_drop_Suc [symmetric])
  show ?case
  proof (cases "?sc n > bestScore")
    case True
    have le: "\<forall>j<Suc n. ?sc j \<le> ?sc n"
    proof (intro allI impI)
      fix j assume "j < Suc n"
      then consider "j < n" | "j = n" by linarith
      then show "?sc j \<le> ?sc n"
      proof cases
        case 1
        then have "?sc j \<le> ?sc i" using Cons.prems(6) by blast
        then show ?thesis using True Cons.prems(5) by simp
      qed simp
    qed
    have lt: "\<forall>j<n. ?sc j < ?sc n"
    proof (intro allI impI)
      fix j assume "j < n"
      then have "?sc j \<le> ?sc i" using Cons.prems(6) by blast
      then show "?sc j < ?sc n" using True Cons.prems(5) by simp
    qed
    have "\<exists>b<length tokens.
           fst (select_loop clock (Suc n) s rest (tokens ! n) (?sc n)) = tokens ! b \<and>
           (\<forall>j<length tokens. ?sc j \<le> ?sc b) \<and> (\<forall>j<b. ?sc j < ?sc b)"
      by (rule Cons.IH [OF dr _ _ refl refl le lt]) (use n in simp_all)
    then show ?thesis using True tok by (simp add: Let_def)
  next
    case False
    have le: "\<forall>j<Suc n. ?sc j \<le> ?sc i"
    proof (intro allI impI)
      fix j assume "j < Suc n"
      then consider "j < n" | "j = n" by linarith
      then show "?sc j \<le> ?sc i"
      proof cases
        case 1
        then show ?thesis using Cons.prems(6) by blast
      next
        case 2
        then show ?thesis using False Cons.prems(5) by simp
      qed
    qed
    have "\<exists>b<length tokens.
           fst (select_loop clock (Suc n) s rest bestToken bestScore) = tokens ! b \<and>
           (\<forall>j<length tokens. ?sc j \<le> ?sc b) \<and> (\<forall>j<b. ?sc j < ?sc b)"
      by (rule Cons.IH [OF dr _ _ Cons.prems(4) Cons.prems(5) le Cons.prems(7)])
         (use n Cons.prems(2) in simp_all)
    then show ?thesis using False tok by (simp add: Let_def)
  qed
qed

text \<open>
  C4. \<open>SelectBestToken\<close> returns the empty string on the empty list and the only element
  of a one-element list, in both cases without a call of \<open>CalculateScore\<close>; on a list of
  two or more it returns a candidate whose score, as computed in the scan, is the largest,
  and the first such candidate in input order.
\<close>

theorem SelectBestToken_argmax:
  "SelectBestToken clock s [] = ([], 0) \<and>
   SelectBestToken clock s [token] = (token, 0) \<and>
   (2 \<le> length tokens \<longrightarrow>
      (\<exists>b<length tokens.
         fst (SelectBestToken clock s tokens) = tokens ! b \<and>
         (\<forall>j<length tokens. CalculateScore (clock j) s (tokens ! j)
                              \<le> CalculateScore (clock b) s (tokens ! b)) \<and>
         (\<forall>j<b. CalculateScore (clock j) s (tokens ! j)
                   < CalculateScore (clock b) s (tokens ! b))))"
proof (intro conjI impI)
  show "SelectBestToken clock s [] = ([], 0)" by (simp add: SelectBestToken_def)
  show "SelectBestToken clock s [token] = (token, 0)" by (simp add: SelectBestToken_def)
next
  assume len: "2 \<le> length tokens"
  then obtain t u rest where tokens: "tokens = t # u # rest"
    by (cases tokens; cases "tl tokens") auto
  have sel: "SelectBestToken clock s tokens =
               select_loop clock 1 s (u # rest) t (CalculateScore (clock 0) s t)"
    by (simp add: SelectBestToken_def tokens)
  have t0: "t = tokens ! 0" and dr: "drop 1 tokens = u # rest" and l1: "1 \<le> length tokens"
    by (simp_all add: tokens)
  have "\<exists>b<length tokens.
          fst (select_loop clock 1 s (u # rest) t (CalculateScore (clock 0) s t)) = tokens ! b \<and>
          (\<forall>j<length tokens. CalculateScore (clock j) s (tokens ! j)
                               \<le> CalculateScore (clock b) s (tokens ! b)) \<and>
          (\<forall>j<b. CalculateScore (clock j) s (tokens ! j)
                    < CalculateScore (clock b) s (tokens ! b))"
  proof (rule select_loop_first_max [where i = 0, OF dr _ l1 t0])
    show "CalculateScore (clock 0) s t = CalculateScore (clock 0) s (tokens ! 0)"
      by (simp only: t0)
  qed simp_all
  then show "\<exists>b<length tokens.
         fst (SelectBestToken clock s tokens) = tokens ! b \<and>
         (\<forall>j<length tokens. CalculateScore (clock j) s (tokens ! j)
                              \<le> CalculateScore (clock b) s (tokens ! b)) \<and>
         (\<forall>j<b. CalculateScore (clock j) s (tokens ! j)
                   < CalculateScore (clock b) s (tokens ! b))"
    by (simp only: sel)
qed

theorem SelectBestToken_argmax_witness:
  "2 \<le> length [''token_x'', ''token_y''] \<and>
   SelectBestToken (\<lambda>n. int n) NewTokenScorer [] = ([], 0) \<and>
   SelectBestToken (\<lambda>n. int n) NewTokenScorer [''token_x''] = (''token_x'', 0) \<and>
   fst (SelectBestToken (\<lambda>n. int n) NewTokenScorer [''token_x'', ''token_y'']) = ''token_x''"
proof -
  let ?clock = "\<lambda>n. int n"
  let ?tokens = "[''token_x'', ''token_y'']"
  have one: "\<And>j. CalculateScore (?clock j) NewTokenScorer (?tokens ! j) = 1"
    by (simp add: CalculateScore_def NewTokenScorer_def)
  have len: "2 \<le> length ?tokens" by simp
  note sel = SelectBestToken_argmax [of ?clock NewTokenScorer "''token_x''" ?tokens]
  from sel len obtain b where b: "b < length ?tokens"
      "fst (SelectBestToken ?clock NewTokenScorer ?tokens) = ?tokens ! b"
      "\<forall>j<b. CalculateScore (?clock j) NewTokenScorer (?tokens ! j)
               < CalculateScore (?clock b) NewTokenScorer (?tokens ! b)"
    by blast
  have "b = 0"
  proof (rule ccontr)
    assume "b \<noteq> 0"
    then have "0 < b" by simp
    with b(3) have "CalculateScore (?clock 0) NewTokenScorer (?tokens ! 0)
               < CalculateScore (?clock b) NewTokenScorer (?tokens ! b)" by blast
    then show False by (simp only: one)
  qed
  with b(2) have "fst (SelectBestToken ?clock NewTokenScorer ?tokens) = ''token_x''" by simp
  with sel len show ?thesis by blast
qed

lemma SelectBestToken_calls:
  "snd (SelectBestToken clock s tokens) = (if length tokens < 2 then 0 else length tokens)"
  by (cases tokens; cases "tl tokens") (auto simp: SelectBestToken_def select_loop_calls Let_def)

lemma untouched_unknown:
  "untouched key p \<Longrightarrow> states (fst p) key = None \<and> metrics (snd p) key = None"
proof (induction rule: untouched.induct)
  case un_init
  show ?case by (simp add: NewRateLimiter_def NewTokenScorer_def)
next
  case (un_failed rl s tokenKey now backoff)
  then show ?case by (simp add: MarkTokenFailed_def Let_def)
next
  case (un_success rl s tokenKey)
  then show ?case by (simp add: MarkTokenSuccess_def split: option.split)
next
  case (un_suspended rl s tokenKey matches errorText)
  then show ?case by (simp add: CheckAndMarkSuspended_def Let_def)
next
  case (un_reset_suspension rl s tokenKey)
  then show ?case by (auto simp: ResetSuspension_def split: option.split)
next
  case (un_clear rl s tokenKey)
  then show ?case by (simp add: ClearTokenState_def)
next
  case (un_record rl s tokenKey now success latency)
  then show ?case
    by (simp add: RecordRequest_def getOrCreateMetrics_def Let_def split: option.split)
next
  case (un_quota rl s tokenKey quota)
  then show ?case
    by (simp add: SetQuotaRemaining_def getOrCreateMetrics_def Let_def split: option.split)
next
  case (un_reset rl s tokenKey)
  then show ?case by (simp add: ResetMetrics_def)
next
  case (un_reset_all rl s)
  then show ?case by (simp add: ResetAllMetrics_def)
qed

text \<open>
  C7. A key on which no failure, success, suspension or metric has been recorded is
  available and has the score 1.
\<close>

theorem unseen_key_available_score_one:
  assumes "untouched key (rl, s)"
  shows "IsTokenAvailable now rl key \<and> CalculateScore now' s key = 1"
  using untouched_unknown [OF assms]
  by (simp add: IsTokenAvailable_def CalculateScore_def)

theorem unseen_key_available_score_one_witness:
  "untouched ''new'' (MarkTokenFailed 7 (\<lambda>n. 60 * n) NewRateLimiter ''old'',
                      RecordRequest 9 NewTokenScorer ''old'' False 5) \<and>
   IsTokenAvailable 8 (MarkTokenFailed 7 (\<lambda>n. 60 * n) NewRateLimiter ''old'') ''new'' \<and>
   CalculateScore 10 (RecordRequest 9 NewTokenScorer ''old'' False 5) ''new'' = 1"
proof -
  have u: "untouched ''new'' (MarkTokenFailed 7 (\<lambda>n. 60 * n) NewRateLimiter ''old'',
                      RecordRequest 9 NewTokenScorer ''old'' False 5)"
    by (intro un_record un_failed un_init) simp_all
  from u unseen_key_available_score_one [OF u, of 8 10] show ?thesis by (rule conjI)
qed


section \<open>Properties of the fingerprint manager\<close>

lemma randomChoice_Some:
  "choices \<noteq> [] \<Longrightarrow> \<exists>c. c \<in> set choices \<and> randomChoice fm choices = Some (c, fm\<lparr>drawn := Suc (drawn fm)\<rparr>)"
  by (simp add: randomChoice_def Intn_def)

lemma randomIntChoice_Some:
  "choices \<noteq> [] \<Longrightarrow> \<exists>c. c \<in> set choices \<and> randomIntChoice fm choices = Some (c, fm\<lparr>drawn := Suc (drawn fm)\<rparr>)"
  by (simp add: randomIntChoice_def Intn_def)

lemma osVersions_nonempty: "osType \<in> set osTypes \<Longrightarrow> osVersions osType \<noteq> []"
  by (auto simp: osTypes_def osVersions_def)

lemma generateFingerprint_Some:
  "\<exists>fp fm'. generateFingerprint sha256hex now fm tokenKey = Some (fp, fm') \<and>
     fingerprints fm' = fingerprints fm \<and>
     OSType fp \<in> set osTypes \<and> OSVersion fp \<in> set (osVersions (OSType fp))"
proof -
  obtain osType fm1 where 1: "randomChoice fm osTypes = Some (osType, fm1)"
      and os: "osType \<in> set osTypes" and f1: "fingerprints fm1 = fingerprints fm"
    using randomChoice_Some [of osTypes fm] by (auto simp: osTypes_def)
  obtain osVersion fm2 where 2: "randomChoice fm1 (osVersions osType) = Some (osVersion, fm2)"
      and ov: "osVersion \<in> set (osVersions osType)" and f2: "fingerprints fm2 = fingerprints fm1"
    using randomChoice_Some [OF osVersions_nonempty [OF os], of fm1] by auto
  obtain kiroVersion fm3 where 3: "randomChoice fm2 kiroVersions = Some (kiroVersion, fm3)"
      and f3: "fingerprints fm3 = fingerprints fm2"
    using randomChoice_Some [of kiroVersions fm2] by (auto simp: kiroVersions_def)
  obtain sdkVersion fm4 where 4: "randomChoice fm3 sdkVersions = Some (sdkVersion, fm4)"
      and f4: "fingerprints fm4 = fingerprints fm3"
    using randomChoice_Some [of sdkVersions fm3] by (auto simp: sdkVersions_def)
  obtain nodeVersion fm5 where 5: "randomChoice fm4 nodeVersions = Some (nodeVersion, fm5)"
      and f5: "fingerprints fm5 = fingerprints fm4"
    using randomChoice_Some [of nodeVersions fm4] by (auto simp: nodeVersions_def)
  obtain acceptLanguage fm6 where 6: "randomChoice fm5 acceptLanguages = Some (acceptLanguage, fm6)"
      and f6: "fingerprints fm6 = fingerprints fm5"
    using randomChoice_Some [of acceptLanguages fm5] by (auto simp: acceptLanguages_def)
  obtain screenResolution fm7 where
      7: "randomChoice fm6 screenResolutions = Some (screenResolution, fm7)"
      and f7: "fingerprints fm7 = fingerprints fm6"
    using randomChoice_Some [of screenResolutions fm6] by (auto simp: screenResolutions_def)
  obtain colorDepth fm8 where 8: "randomIntChoice fm7 colorDepths = Some (colorDepth, fm8)"
      and f8: "fingerprints fm8 = fingerprints fm7"
    using randomIntChoice_Some [of colorDepths fm7] by (auto simp: colorDepths_def)
  obtain hardwareConcurrency fm9 where
      9: "randomIntChoice fm8 hardwareConcurrencies = Some (hardwareConcurrency, fm9)"
      and f9: "fingerprints fm9 = fingerprints fm8"
    using randomIntChoice_Some [of hardwareConcurrencies fm8] by (auto simp: hardwareConcurrencies_def)
  obtain timezoneOffset fm10 where
      10: "randomIntChoice fm9 timezoneOffsets = Some (timezoneOffset, fm10)"
      and f10: "fingerprints fm10 = fingerprints fm9"
    using randomIntChoice_Some [of timezoneOffsets fm9] by (auto simp: timezoneOffsets_def)
  show ?thesis
    by (simp add: generateFingerprint_def 1 2 3 4 5 6 7 8 9 10 f1 f2 f3 f4 f5 f6 f7 f8 f9 f10 os ov)
qed

lemma GetFingerprint_stored:
  "fingerprints fm key = Some fp \<Longrightarrow> GetFingerprint sha256hex now fm key = Some (fp, fm)"
  by (simp add: GetFingerprint_def)

lemma GetFingerprint_Some:
  "\<exists>fp fm1. GetFingerprint sha256hex now fm key = Some (fp, fm1) \<and> fingerprints fm1 key = Some fp"
proof (cases "fingerprints fm key")
  case None
  obtain fp fm' where "generateFingerprint sha256hex now fm key = Some (fp, fm')"
    using generateFingerprint_Some by blast
  with None show ?thesis by (simp add: GetFingerprint_def)
next
  case (Some fp)
  then show ?thesis by (simp add: GetFingerprint_def)
qed

lemma GetFingerprint_keeps:
  assumes "GetFingerprint sha256hex now fm tokenKey = Some (fp', fm')"
    and "fingerprints fm key = Some fp"
  shows "fingerprints fm' key = Some fp"
proof (cases "fingerprints fm tokenKey")
  case None
  then have ne: "tokenKey \<noteq> key" using assms(2) by auto
  obtain g fm1 where g: "generateFingerprint sha256hex now fm tokenKey = Some (g, fm1)"
      and f: "fingerprints fm1 = fingerprints fm"
    using generateFingerprint_Some by blast
  from assms(1) None g have "fm' = fm1\<lparr>fingerprints := (fingerprints fm1)(tokenKey \<mapsto> g)\<rparr>"
    by (auto simp: GetFingerprint_def)
  then show ?thesis using ne f assms(2) by simp
next
  case (Some g)
  with assms show ?thesis by (simp add: GetFingerprint_def)
qed

lemma fm_later_keeps:
  "fm_later key fm fm' \<Longrightarrow> fingerprints fm key = Some fp \<Longrightarrow> fingerprints fm' key = Some fp"
proof (induction rule: fm_later.induct)
  case later_refl
  then show ?case .
next
  case (later_get fm1 sha256hex now tokenKey fp' fm2)
  then show ?case using GetFingerprint_keeps by blast
next
  case (later_remove fm1 tokenKey)
  then show ?case by (simp add: RemoveFingerprint_def)
qed

text \<open>
  C9. \<open>GetFingerprint\<close> always returns a fingerprint, and after the first call for a key
  every later call for that key returns the same fingerprint, whatever calls of
  \<open>GetFingerprint\<close> on any keys and of \<open>RemoveFingerprint\<close> on other keys come in between.
  The OS version of a generated fingerprint is in the catalog of its OS type.
\<close>

theorem GetFingerprint_stable:
  "(\<exists>fp fm1. GetFingerprint sha256hex now fm key = Some (fp, fm1) \<and>
      (\<forall>fm2 sha256hex' now'. fm_later key fm1 fm2 \<longrightarrow>
          GetFingerprint sha256hex' now' fm2 key = Some (fp, fm2))) \<and>
   (\<forall>fp fm'. generateFingerprint sha256hex now fm key = Some (fp, fm') \<longrightarrow>
      OSVersion fp \<in> set (osVersions (OSType fp)))"
proof
  obtain fp fm1 where g: "GetFingerprint sha256hex now fm key = Some (fp, fm1)"
      and s: "fingerprints fm1 key = Some fp"
    using GetFingerprint_Some by blast
  have "\<forall>fm2 sha256hex' now'. fm_later key fm1 fm2 \<longrightarrow>
          GetFingerprint sha256hex' now' fm2 key = Some (fp, fm2)"
    using fm_later_keeps [OF _ s] GetFingerprint_stored by blast
  with g show "\<exists>fp fm1. GetFingerprint sha256hex now fm key = Some (fp, fm1) \<and>
      (\<forall>fm2 sha256hex' now'. fm_later key fm1 fm2 \<longrightarrow>
          GetFingerprint sha256hex' now' fm2 key = Some (fp, fm2))"
    by blast
next
  show "\<forall>fp fm'. generateFingerprint sha256hex now fm key = Some (fp, fm') \<longrightarrow>
      OSVersion fp \<in> set (osVersions (OSType fp))"
    using generateFingerprint_Some [of sha256hex now fm key] by auto
qed

theorem GetFingerprint_stable_witness:
  "GetFingerprint (\<lambda>s. ''h'') 0 (NewFingerprintManager (\<lambda>i. 0)) ''token1'' =
     Some (\<lparr>SDKVersion = ''1.0.20'', OSType = ''darwin'', OSVersion = ''14.0'',
             NodeVersion = ''18.17.0'', KiroVersion = ''0.3.0'', KiroHash = ''h'',
             AcceptLanguage = ''en-US,en;q=0.9'', ScreenResolution = ''1920x1080'',
             ColorDepth = 24, HardwareConcurrency = 4, TimezoneOffset = - 480\<rparr>,
           \<lparr>fingerprints = [''token1'' \<mapsto>
              \<lparr>SDKVersion = ''1.0.20'', OSType = ''darwin'', OSVersion = ''14.0'',
               NodeVersion = ''18.17.0'', KiroVersion = ''0.3.0'', KiroHash = ''h'',
               AcceptLanguage = ''en-US,en;q=0.9'', ScreenResolution = ''1920x1080'',
               ColorDepth = 24, HardwareConcurrency = 4, TimezoneOffset = - 480\<rparr>],
             rng = \<lambda>i. 0, drawn = 10\<rparr>) \<and>
   fm_later ''token1''
     \<lparr>fingerprints = [''token1'' \<mapsto>
        \<lparr>SDKVersion = ''1.0.20'', OSType = ''darwin'', OSVersion = ''14.0'',
         NodeVersion = ''18.17.0'', KiroVersion = ''0.3.0'', KiroHash = ''h'',
         AcceptLanguage = ''en-US,en;q=0.9'', ScreenResolution = ''1920x1080'',
         ColorDepth = 24, HardwareConcurrency = 4, TimezoneOffset = - 480\<rparr>],
       rng = \<lambda>i. 0, drawn = 10\<rparr>
     (RemoveFingerprint
        \<lparr>fingerprints = [''token1'' \<mapsto>
           \<lparr>SDKVersion = ''1.0.20'', OSType = ''darwin'', OSVersion = ''14.0'',
            NodeVersion = ''18.17.0'', KiroVersion = ''0.3.0'', KiroHash = ''h'',
            AcceptLanguage = ''en-US,en;q=0.9'', ScreenResolution = ''1920x1080'',
            ColorDepth = 24, HardwareConcurrency = 4, TimezoneOffset = - 480\<rparr>],
          rng = \<lambda>i. 0, drawn = 10\<rparr> ''token2'') \<and>
   fst (the (GetFingerprint (\<lambda>s. ''g'') 5
     (RemoveFingerprint
        \<lparr>fingerprints = [''token1'' \<mapsto>
           \<lparr>SDKVersion = ''1.0.20'', OSType = ''darwin'', OSVersion = ''14.0'',
            NodeVersion = ''18.17.0'', KiroVersion = ''0.3.0'', KiroHash = ''h'',
            AcceptLanguage = ''en-US,en;q=0.9'', ScreenResolution = ''1920x1080'',
            ColorDepth = 24, HardwareConcurrency = 4, TimezoneOffset = - 480\<rparr>],
          rng = \<lambda>i. 0, drawn = 10\<rparr> ''token2'') ''token1'')) =
     \<lparr>SDKVersion = ''1.0.20'', OSType = ''darwin'', OSVersion = ''14.0'',
      NodeVersion = ''18.17.0'', KiroVersion = ''0.3.0'', KiroHash = ''h'',
      AcceptLanguage = ''en-US,en;q=0.9'', ScreenResolution = ''1920x1080'',
      ColorDepth = 24, HardwareConcurrency = 4, TimezoneOffset = - 480\<rparr> \<and>
   ''14.0'' \<in> set (osVersions ''darwin'')"
proof -
  let ?fp = "\<lparr>SDKVersion = ''1.0.20'', OSType = ''darwin'', OSVersion = ''14.0'',
      NodeVersion = ''18.17.0'', KiroVersion = ''0.3.0'', KiroHash = ''h'',
      AcceptLanguage = ''en-US,en;q=0.9'', ScreenResolution = ''1920x1080'',
      ColorDepth = 24, HardwareConcurrency = 4, TimezoneOffset = - 480\<rparr>"
  let ?fm0 = "NewFingerprintManager (\<lambda>i. 0)"
  let ?fm1 = "\<lparr>fingerprints = [''token1'' \<mapsto> ?fp], rng = \<lambda>i. 0, drawn = 10\<rparr>"
  let ?fm2 = "RemoveFingerprint ?fm1 ''token2''"
  have gen: "generateFingerprint (\<lambda>s. ''h'') 0 ?fm0 ''token1'' =
               Some (?fp, \<lparr>fingerprints = Map.empty, rng = \<lambda>i. 0, drawn = 10\<rparr>)"
    by (simp add: generateFingerprint_def randomChoice_def randomIntChoice_def Intn_def
          NewFingerprintManager_def osTypes_def osVersions_def kiroVersions_def sdkVersions_def
          nodeVersions_def acceptLanguages_def screenResolutions_def colorDepths_def
          hardwareConcurrencies_def timezoneOffsets_def generateKiroHash_def)
  have none: "fingerprints ?fm0 ''token1'' = None"
    by (simp add: NewFingerprintManager_def)
  have get: "GetFingerprint (\<lambda>s. ''h'') 0 ?fm0 ''token1'' = Some (?fp, ?fm1)"
    by (simp add: GetFingerprint_def none gen)
  have later: "fm_later ''token1'' ?fm1 ?fm2"
    by (rule later_remove [OF later_refl]) simp
  note st = GetFingerprint_stable [of "\<lambda>s. ''h''" 0 ?fm0 "''token1''"]
  from st get later have "GetFingerprint (\<lambda>s. ''g'') 5 ?fm2 ''token1'' = Some (?fp, ?fm2)"
    by (metis option.inject prod.inject)
  then have again: "fst (the (GetFingerprint (\<lambda>s. ''g'') 5 ?fm2 ''token1'')) = ?fp"
    by simp
  from st gen have "OSVersion ?fp \<in> set (osVersions (OSType ?fp))"
    by blast
  then have cat: "''14.0'' \<in> set (osVersions ''darwin'')"
    by simp
  from get later again cat show ?thesis by blast
qed


section \<open>Properties of the token repository\<close>

lemma fst_as_string_nonempty: "fst (as_string v) = s \<Longrightarrow> s \<noteq> [] \<Longrightarrow> v = Some (JString s)"
  by (auto simp: as_string_def split: option.splits json.splits)

lemma if_string_AuthMethod:
  "(\<And>v t. AuthMethod (assign v t) = AuthMethod t)
     \<Longrightarrow> AuthMethod (if_string metadata key assign token) = AuthMethod token"
  by (simp add: if_string_def split: prod.splits bool.splits)

lemma readTokenFile_Some:
  assumes "readTokenFile lib fs path = Inr (Some t)"
  shows "\<exists>metadata. files fs path = Some (Object metadata) \<and>
           metadata ''type'' = Some (JString ''kiro'') \<and>
           metadata ''auth_method'' = Some (JString (AuthMethod t)) \<and>
           (AuthMethod t = ''idc'' \<or> AuthMethod t = ''builder-id'')"
proof (cases "files fs path")
  case None
  with assms show ?thesis by (simp add: readTokenFile_def)
next
  case (Some d)
  show ?thesis
  proof (cases d)
    case Invalid
    with assms Some show ?thesis by (simp add: readTokenFile_def Unmarshal_def)
  next
    case Null
    with assms Some show ?thesis
      by (simp add: readTokenFile_def Unmarshal_def index_def as_string_def)
  next
    case NonObject
    with assms Some show ?thesis by (simp add: readTokenFile_def Unmarshal_def)
  next
    case (Object obj)
    let ?ty = "fst (as_string (obj ''type''))"
    let ?am = "fst (as_string (obj ''auth_method''))"
    from assms Some Object have ty: "?ty = ''kiro''"
      by (simp add: readTokenFile_def Unmarshal_def index_def Let_def split: if_splits)
    from assms Some Object ty have am: "?am = ''idc'' \<or> ?am = ''builder-id''"
      by (simp add: readTokenFile_def Unmarshal_def index_def Let_def split: if_splits)
    from assms Some Object ty am have "AuthMethod t = ?am"
      by (auto simp: readTokenFile_def Unmarshal_def index_def Let_def if_string_AuthMethod
            split: option.splits)
    moreover have "obj ''type'' = Some (JString ''kiro'')"
      using fst_as_string_nonempty [OF ty] by simp
    moreover have "obj ''auth_method'' = Some (JString ?am)"
      using am fst_as_string_nonempty [of "obj ''auth_method''" ?am] by auto
    ultimately show ?thesis using Some Object am by simp
  qed
qed

lemma visit_cases:
  "visit lib now fs d tokens = tokens \<or>
   (\<exists>t. visit lib now fs d tokens = tokens @ [t] \<and> accepted lib now fs d t)"
  by (auto simp: visit_def accepted_def split: sum.splits option.splits)

lemma walk_loop_accepted:
  "t \<in> set (walk_loop lib clock fs i ds tokens) \<Longrightarrow>
     t \<in> set tokens \<or> (\<exists>j<length ds. accepted lib (clock (i + j)) fs (ds ! j) t)"
proof (induction ds arbitrary: i tokens)
  case Nil
  then show ?case by simp
next
  case (Cons d ds)
  from Cons.prems have "t \<in> set (walk_loop lib clock fs (Suc i) ds (visit lib (clock i) fs d tokens))"
    by simp
  from Cons.IH [OF this] consider
      (old) "t \<in> set (visit lib (clock i) fs d tokens)"
    | (new) j where "j < length ds" "accepted lib (clock (Suc i + j)) fs (ds ! j) t"
    by blast
  then show ?case
  proof cases
    case old
    then consider "t \<in> set tokens" | "accepted lib (clock i) fs d t"
      using visit_cases [of lib "clock i" fs d tokens] by auto
    then show ?thesis
    proof cases
      case 1
      then show ?thesis by simp
    next
      case 2
      then have "0 < length (d # ds) \<and> accepted lib (clock (i + 0)) fs ((d # ds) ! 0) t" by simp
      then show ?thesis by blast
    qed
  next
    case new
    then have "Suc j < length (d # ds) \<and> accepted lib (clock (i + Suc j)) fs ((d # ds) ! Suc j) t"
      by simp
    then show ?thesis by blast
  qed
qed

lemma sorted_SortSlice:
  assumes "sorts_by_LastVerified srt"
  shows "sorted_wrt (\<lambda>a b. LastVerified a \<le> LastVerified b) (srt xs)"
proof -
  have "sorted_wrt (\<lambda>a b. \<not> Before (LastVerified b) (LastVerified a)) (srt xs)"
    using assms by (simp add: sorts_by_LastVerified_def)
  then show ?thesis by (simp add: Before_def not_less)
qed

lemma set_SortSlice: "sorts_by_LastVerified srt \<Longrightarrow> set (srt xs) = set xs"
  by (metis sorts_by_LastVerified_def set_mset_mset)

lemma length_SortSlice: "sorts_by_LastVerified srt \<Longrightarrow> length (srt xs) = length xs"
  by (metis sorts_by_LastVerified_def size_mset)

lemma sort_key_sorts_by_LastVerified: "sorts_by_LastVerified (sort_key LastVerified)"
proof -
  have "sorted_wrt (\<lambda>a b. \<not> Before (LastVerified b) (LastVerified a)) (sort_key LastVerified xs)" for xs
    using sorted_sort_key [of LastVerified xs] by (simp add: sorted_map Before_def not_less)
  then show ?thesis by (auto simp: sorts_by_LastVerified_def)
qed

text \<open>
  C2. Whatever the limit and the directory, and for every sort that meets the contract of
  \<open>sort.Slice\<close>: every token that \<open>FindOldestUnverified\<close> returns was read from an entry of
  the walk that is a file whose name starts with \<open>kiro-\<close> and ends, compared without regard
  to case, with \<open>.json\<close>; the file is a JSON object of declared type \<open>kiro\<close>; the token has
  the authentication method \<open>idc\<close> or \<open>builder-id\<close>, a refresh token that is not empty, and
  an expiry that is zero or less than 5 minutes after the clock reading at its entry. The
  result is in ascending order of the last-verified time, has at most \<open>limit\<close> elements when
  \<open>limit\<close> is positive, and holds every token the walk collected when \<open>limit\<close> is 0 or
  negative.
\<close>

theorem FindOldestUnverified_spec:
  assumes "sorts_by_LastVerified (SortSlice lib)"
  shows "(\<forall>t \<in> set (FindOldestUnverified lib clock fs r limit).
            \<exists>j<length (tree fs (baseDir r)).
              \<not> wErr (tree fs (baseDir r) ! j) \<and> \<not> IsDir (tree fs (baseDir r) ! j) \<and>
              HasPrefix (Name (tree fs (baseDir r) ! j)) ''kiro-'' \<and>
              HasSuffix (ToLower (Name (tree fs (baseDir r) ! j))) ''.json'' \<and>
              readTokenFile lib fs (wPath (tree fs (baseDir r) ! j)) = Inr (Some t) \<and>
              (\<exists>metadata. files fs (wPath (tree fs (baseDir r) ! j)) = Some (Object metadata) \<and>
                 metadata ''type'' = Some (JString ''kiro'')) \<and>
              (AuthMethod t = ''idc'' \<or> AuthMethod t = ''builder-id'') \<and>
              RefreshToken t \<noteq> [] \<and>
              (IsZero (ExpiresAt t) \<or> Until (clock j) (ExpiresAt t) < 5 * Minute)) \<and>
         sorted_wrt (\<lambda>a b. LastVerified a \<le> LastVerified b)
           (FindOldestUnverified lib clock fs r limit) \<and>
         (0 < limit \<longrightarrow> int (length (FindOldestUnverified lib clock fs r limit)) \<le> limit) \<and>
         (limit \<le> 0 \<longrightarrow> baseDir r \<noteq> [] \<longrightarrow>
            mset (FindOldestUnverified lib clock fs r limit) =
            mset (walk_loop lib clock fs 0 (tree fs (baseDir r)) []))"
proof (intro conjI ballI impI)
  let ?walk = "walk_loop lib clock fs 0 (tree fs (baseDir r)) []"
  let ?res = "FindOldestUnverified lib clock fs r limit"
  have sub: "set ?res \<subseteq> set ?walk"
    using set_SortSlice [OF assms, of ?walk] set_take_subset [of "nat limit" "SortSlice lib ?walk"]
    by (auto simp: FindOldestUnverified_def Let_def)
  {
    fix t assume "t \<in> set ?res"
    then have "t \<in> set ?walk" using sub by blast
    from walk_loop_accepted [OF this] obtain j where j: "j < length (tree fs (baseDir r))"
        and acc: "accepted lib (clock j) fs (tree fs (baseDir r) ! j) t"
      by auto
    from acc have rd: "readTokenFile lib fs (wPath (tree fs (baseDir r) ! j)) = Inr (Some t)"
      by (simp add: accepted_def)
    from readTokenFile_Some [OF rd] acc j
    show "\<exists>j<length (tree fs (baseDir r)).
              \<not> wErr (tree fs (baseDir r) ! j) \<and> \<not> IsDir (tree fs (baseDir r) ! j) \<and>
              HasPrefix (Name (tree fs (baseDir r) ! j)) ''kiro-'' \<and>
              HasSuffix (ToLower (Name (tree fs (baseDir r) ! j))) ''.json'' \<and>
              readTokenFile lib fs (wPath (tree fs (baseDir r) ! j)) = Inr (Some t) \<and>
              (\<exists>metadata. files fs (wPath (tree fs (baseDir r) ! j)) = Some (Object metadata) \<and>
                 metadata ''type'' = Some (JString ''kiro'')) \<and>
              (AuthMethod t = ''idc'' \<or> AuthMethod t = ''builder-id'') \<and>
              RefreshToken t \<noteq> [] \<and>
              (IsZero (ExpiresAt t) \<or> Until (clock j) (ExpiresAt t) < 5 * Minute)"
      unfolding accepted_def by blast
  }
  show "sorted_wrt (\<lambda>a b. LastVerified a \<le> LastVerified b) ?res"
    using sorted_SortSlice [OF assms, of ?walk]
    by (auto simp: FindOldestUnverified_def Let_def intro: sorted_wrt_take)
  {
    assume "0 < limit"
    then show "int (length ?res) \<le> limit"
      by (auto simp: FindOldestUnverified_def Let_def)
  }
  {
    assume "limit \<le> 0" and "baseDir r \<noteq> []"
    then show "mset ?res = mset ?walk"
      using assms by (simp add: FindOldestUnverified_def Let_def sorts_by_LastVerified_def)
  }
qed

theorem FindOldestUnverified_spec_witness:
  "sorts_by_LastVerified
     (SortSlice \<lparr>Join = (\<lambda>a b. a @ CHR ''/'' # b), Base = drop 5, Format = (\<lambda>t. ''never''),
                 Parse = (\<lambda>s. None), SortSlice = sort_key LastVerified\<rparr>) \<and>
   FindOldestUnverified
     \<lparr>Join = (\<lambda>a b. a @ CHR ''/'' # b), Base = drop 5, Format = (\<lambda>t. ''never''),
       Parse = (\<lambda>s. None), SortSlice = sort_key LastVerified\<rparr>
     (\<lambda>i. 100)
     \<lparr>files = [''auth/kiro-a.json'' \<mapsto>
                 Object [''type'' \<mapsto> JString ''kiro'', ''auth_method'' \<mapsto> JString ''idc'',
                         ''refresh_token'' \<mapsto> JString ''r'']],
       tree = (\<lambda>root. [\<lparr>wPath = ''auth/kiro-a.json'', Name = ''kiro-a.json'',
                          IsDir = False, wErr = False\<rparr>])\<rparr>
     (NewFileTokenRepository ''auth'') 1 =
     [\<lparr>ID = ''kiro-a.json'', AccessToken = [], RefreshToken = ''r'', ExpiresAt = 0,
       LastVerified = 0, ClientID = [], ClientSecret = [], AuthMethod = ''idc'',
       Provider = [], StartURL = [], Region = []\<rparr>] \<and>
   int (length (FindOldestUnverified
     \<lparr>Join = (\<lambda>a b. a @ CHR ''/'' # b), Base = drop 5, Format = (\<lambda>t. ''never''),
       Parse = (\<lambda>s. None), SortSlice = sort_key LastVerified\<rparr>
     (\<lambda>i. 100)
     \<lparr>files = [''auth/kiro-a.json'' \<mapsto>
                 Object [''type'' \<mapsto> JString ''kiro'', ''auth_method'' \<mapsto> JString ''idc'',
                         ''refresh_token'' \<mapsto> JString ''r'']],
       tree = (\<lambda>root. [\<lparr>wPath = ''auth/kiro-a.json'', Name = ''kiro-a.json'',
                          IsDir = False, wErr = False\<rparr>])\<rparr>
     (NewFileTokenRepository ''auth'') 1)) \<le> 1"
proof -
  let ?lib = "\<lparr>Join = (\<lambda>a b. a @ CHR ''/'' # b), Base = drop 5, Format = (\<lambda>t. ''never''),
       Parse = (\<lambda>s. None), SortSlice = sort_key LastVerified\<rparr>"
  let ?fs = "\<lparr>files = [''auth/kiro-a.json'' \<mapsto>
                 Object [''type'' \<mapsto> JString ''kiro'', ''auth_method'' \<mapsto> JString ''idc'',
                         ''refresh_token'' \<mapsto> JString ''r'']],
       tree = (\<lambda>root. [\<lparr>wPath = ''auth/kiro-a.json'', Name = ''kiro-a.json'',
                          IsDir = False, wErr = False\<rparr>])\<rparr>"
  let ?tok = "\<lparr>ID = ''kiro-a.json'', AccessToken = [], RefreshToken = ''r'', ExpiresAt = 0,
       LastVerified = 0, ClientID = [], ClientSecret = [], AuthMethod = ''idc'',
       Provider = [], StartURL = [], Region = []\<rparr>"
  have h: "sorts_by_LastVerified (SortSlice ?lib)"
    by (simp add: sort_key_sorts_by_LastVerified)
  have rd: "readTokenFile ?lib ?fs ''auth/kiro-a.json'' = Inr (Some ?tok)"
    by (simp add: readTokenFile_def Unmarshal_def index_def as_string_def if_string_def Let_def)
  have ev: "FindOldestUnverified ?lib (\<lambda>i. 100) ?fs (NewFileTokenRepository ''auth'') 1 = [?tok]"
    by (simp add: FindOldestUnverified_def NewFileTokenRepository_def visit_def rd
          HasSuffix_def ToLower_def lower_char_def IsZero_def Let_def)
  have "int (length (FindOldestUnverified ?lib (\<lambda>i. 100) ?fs (NewFileTokenRepository ''auth'') 1)) \<le> 1"
    using FindOldestUnverified_spec [OF h, of "\<lambda>i. 100" ?fs "NewFileTokenRepository ''auth''" 1]
    by simp
  with h ev show ?thesis by blast
qed









end
